theory Spec2Isabelle
  imports Complex_Main "HOL-Library.AList" "HOL-Library.Log_Nat"
begin

section \<open>Empathy-Bot: the emotion post-processing pipeline of emotion\_detector.py\<close>

text \<open>
  The embedding follows \<^verbatim>\<open>EmotionDetector\<close> in \<^verbatim>\<open>src/emotion_detector.py\<close>.
  Python floats are modelled as real numbers (exact arithmetic, no rounding), except in
  the double-precision model of the Cultural Adjuster, which rounds every arithmetic
  result to the nearest IEEE 754 double; a Python
  \<^verbatim>\<open>dict\<close> is an association list in insertion order, updated with \<open>AList.update\<close>
  (an existing key is overwritten in place, a new key is appended), and read with
  \<open>map_of\<close>. Exceptions are values of type \<open>py_error\<close>.
\<close>

subsection \<open>Data model\<close>

datatype py_error = ZeroDivisionError | AttributeError | TypeError | ValueError

type_synonym scores = "(string \<times> real) list"

text \<open>One entry of the classifier's raw output: \<^verbatim>\<open>{'label': ..., 'score': ...}\<close>.\<close>

record item =
  label :: string
  score :: real

text \<open>The keys of \<^verbatim>\<open>self.emotion_scores\<close>, in the order of the dict literal of \<^verbatim>\<open>__init__\<close>.\<close>

definition taxonomy :: "string list" where
  "taxonomy =
    [''admiration'', ''amusement'', ''anger'', ''annoyance'', ''approval'', ''caring'',
     ''confusion'', ''curiosity'', ''desire'', ''disappointment'', ''disapproval'',
     ''disgust'', ''embarrassment'', ''excitement'', ''fear'', ''gratitude'', ''grief'',
     ''joy'', ''love'', ''nervousness'', ''optimism'', ''pride'', ''realization'',
     ''relief'', ''remorse'', ''sadness'', ''surprise'', ''neutral'']"

text \<open>\<^verbatim>\<open>self.emotion_scores\<close> as \<^verbatim>\<open>__init__\<close> leaves it: every label at 0.0.\<close>

definition emotion_scores_init :: scores where
  "emotion_scores_init = map (\<lambda>k. (k, 0)) taxonomy"

definition positive_emotions :: "string list" where
  "positive_emotions =
    [''admiration'', ''amusement'', ''approval'', ''caring'', ''curiosity'', ''desire'',
     ''excitement'', ''gratitude'', ''joy'', ''love'', ''optimism'', ''pride'',
     ''realization'', ''relief'']"

definition negative_emotions :: "string list" where
  "negative_emotions =
    [''anger'', ''annoyance'', ''disappointment'', ''disapproval'', ''disgust'',
     ''embarrassment'', ''fear'', ''grief'', ''nervousness'', ''remorse'', ''sadness'']"

definition neutral_emotions :: "string list" where
  "neutral_emotions = [''surprise'', ''neutral'', ''confusion'']"

subsection \<open>Dictionary helpers\<close>

text \<open>\<^verbatim>\<open>k in d\<close>, \<^verbatim>\<open>sum(d.values())\<close> and the comprehension
  \<^verbatim>\<open>{k: v / total for k, v in d.items()}\<close>, whose division raises on a zero divisor.\<close>

definition has_key :: "scores \<Rightarrow> string \<Rightarrow> bool" where
  "has_key d k = (k \<in> set (map fst d))"

definition sum_values :: "scores \<Rightarrow> real" where
  "sum_values d = sum_list (map snd d)"

fun divide_all :: "scores \<Rightarrow> real \<Rightarrow> py_error + scores" where
  "divide_all [] t = Inr []"
| "divide_all ((k, v) # kvs) t =
     (if t = 0 then Inl ZeroDivisionError
      else (case divide_all kvs t of
              Inl e \<Rightarrow> Inl e
            | Inr r \<Rightarrow> Inr ((k, v / t) # r)))"

subsection \<open>Score Normalizer: \_process\_model\_output\<close>

text \<open>
  The body of the \<^verbatim>\<open>for item in result\<close> loop: a recognised label overwrites its
  score, any other label sets \<^verbatim>\<open>neutral\<close> to 0.5.
\<close>

definition absorb_item :: "item \<Rightarrow> scores \<Rightarrow> scores" where
  "absorb_item it s =
     (if has_key s (label it) then AList.update (label it) (score it) s
      else AList.update ''neutral'' 0.5 s)"

definition absorb_items :: "item list \<Rightarrow> scores \<Rightarrow> scores" where
  "absorb_items results s = fold absorb_item results s"

text \<open>
  \<^verbatim>\<open>_process_model_output\<close>. The first argument is \<^verbatim>\<open>self.emotion_scores\<close> as
  the call finds it. The method returns \<^verbatim>\<open>self.emotion_scores\<close> itself, so the value
  computed here is both what the caller receives and the state the next call starts from.
  An empty \<^verbatim>\<open>results\<close> skips the loop, which is what \<open>fold\<close> does on \<open>[]\<close>.
\<close>

definition process_model_output :: "scores \<Rightarrow> item list \<Rightarrow> py_error + scores" where
  "process_model_output s results =
     (let s1 = absorb_items results s;
          total_score = sum_values s1
      in if total_score > 0 then divide_all s1 total_score
         else Inr (AList.update ''neutral'' 1.0 s1))"

text \<open>The degenerate distribution: \<^verbatim>\<open>neutral\<close> at 1.0, every other label at 0.0.\<close>

definition neutral_distribution :: scores where
  "neutral_distribution = map (\<lambda>k. (k, if k = ''neutral'' then 1 else 0)) taxonomy"


text \<open>
  The scores a run of the loop from the all-zero state can leave when every recognised
  label carries 0: all labels at 0 except \<^verbatim>\<open>neutral\<close>, which holds \<open>c\<close>.
\<close>

definition tabulate_neutral :: "real \<Rightarrow> scores" where
  "tabulate_neutral c = map (\<lambda>k. (k, if k = ''neutral'' then c else 0)) taxonomy"

subsection \<open>Cultural Adjuster: \_apply\_cultural\_context\<close>

text \<open>
  The values stored in a cultural profile are strings or lists of strings. A profile and
  the table of profiles are dicts; \<^verbatim>\<open>d.get(k, default)\<close> is \<open>dict_get\<close>.
\<close>

datatype pyval = Str string | StrList "string list"

type_synonym profile = "(string \<times> pyval) list"

type_synonym culture_table = "(string \<times> profile) list"

definition dict_get :: "('k \<times> 'v) list \<Rightarrow> 'k \<Rightarrow> 'v \<Rightarrow> 'v" where
  "dict_get d k dflt = (case map_of d k of Some v \<Rightarrow> v | None \<Rightarrow> dflt)"

text \<open>\<^verbatim>\<open>load_cultural_context()\<close> of \<^verbatim>\<open>src/data_preprocessing.py\<close>.\<close>

definition load_cultural_context :: culture_table where
  "load_cultural_context =
    [(''western'',
        [(''communication_style'', Str ''direct''),
         (''emotional_expression'', Str ''expressive''),
         (''tone_preference'', Str ''casual''),
         (''self_expression'', Str ''individual''),
         (''conflict_response'', Str ''confrontational''),
         (''feedback_style'', Str ''direct''),
         (''support_preferences'', StrList [''practical_advice'', ''emotional_validation'']),
         (''values'', StrList [''autonomy'', ''achievement'', ''openness''])]),
     (''eastern'',
        [(''communication_style'', Str ''indirect''),
         (''emotional_expression'', Str ''reserved''),
         (''tone_preference'', Str ''formal''),
         (''self_expression'', Str ''collective''),
         (''conflict_response'', Str ''avoidant''),
         (''feedback_style'', Str ''indirect''),
         (''support_preferences'', StrList [''group_harmony'', ''respectful_distance'']),
         (''values'', StrList [''harmony'', ''respect'', ''duty''])]),
     (''default'',
        [(''communication_style'', Str ''balanced''),
         (''emotional_expression'', Str ''adaptive''),
         (''tone_preference'', Str ''neutral''),
         (''self_expression'', Str ''flexible''),
         (''conflict_response'', Str ''contextual''),
         (''feedback_style'', Str ''constructive''),
         (''support_preferences'', StrList [''empathetic_listening'', ''gentle_guidance'']),
         (''values'', StrList [''adaptability'', ''understanding'', ''balance''])])]"

text \<open>
  The lookup of the style: the profile of the context, else the profile of
  \<^verbatim>\<open>'default'\<close>, else an empty profile; then its \<^verbatim>\<open>'emotional_expression'\<close>,
  else \<^verbatim>\<open>'adaptive'\<close>.
\<close>

definition expression_style :: "culture_table \<Rightarrow> string \<Rightarrow> pyval" where
  "expression_style cultural_context context =
     (let context_info = dict_get cultural_context context
                           (dict_get cultural_context ''default'' [])
      in dict_get context_info ''emotional_expression'' (Str ''adaptive''))"

text \<open>
  The two loops over \<^verbatim>\<open>adjusted_scores\<close>. Each visits every key of the dict once and
  rewrites the value stored under it, so the loop is a map over the entries. In the
  \<^verbatim>\<open>reserved\<close> branch the \<^verbatim>\<open>else\<close> arm evaluates
  \<^verbatim>\<open>adjusted_scores[emotion] + 0.2 * sum(...)\<close> and drops the result: the entry stays.
\<close>

definition adjust_scores :: "pyval \<Rightarrow> scores \<Rightarrow> scores" where
  "adjust_scores style adjusted_scores =
     (if style = Str ''reserved'' then
        map (\<lambda>(emotion, v). if emotion \<notin> set neutral_emotions then (emotion, v * 0.8)
                              else (emotion, v)) adjusted_scores
      else if style = Str ''expressive'' then
        map (\<lambda>(emotion, v). if emotion \<notin> set neutral_emotions then (emotion, v * 1.2)
                              else (emotion, v)) adjusted_scores
      else adjusted_scores)"

text \<open>The body of the \<^verbatim>\<open>try\<close> block, and the method with its \<^verbatim>\<open>except\<close>.\<close>

definition apply_cultural_context_body ::
    "culture_table \<Rightarrow> scores \<Rightarrow> string \<Rightarrow> py_error + scores" where
  "apply_cultural_context_body cultural_context emotion_scores context =
     (let style = expression_style cultural_context context;
          adjusted_scores = adjust_scores style emotion_scores;
          total = sum_values adjusted_scores
      in if total > 0 then divide_all adjusted_scores total
         else Inr adjusted_scores)"

definition apply_cultural_context :: "culture_table \<Rightarrow> scores \<Rightarrow> string \<Rightarrow> scores" where
  "apply_cultural_context cultural_context emotion_scores context =
     (case apply_cultural_context_body cultural_context emotion_scores context of
        Inl e \<Rightarrow> emotion_scores
      | Inr adjusted_scores \<Rightarrow> adjusted_scores)"

text \<open>A complete distribution: no negative score, and the scores sum to 1.\<close>

definition complete_distribution :: "scores \<Rightarrow> bool" where
  "complete_distribution d = (list_all (\<lambda>(k, v). 0 \<le> v) d \<and> sum_values d = 1)"

subsection \<open>Intensity Classifier: \_calculate\_intensity\<close>

text \<open>
  The \<^verbatim>\<open>text\<close> argument is a string in every call of the repository, but the method
  guards against other values; \<^verbatim>\<open>None\<close> and integers stand for those. Text is ASCII:
  \<^verbatim>\<open>isupper\<close> holds of \<^verbatim>\<open>A\<close> to \<^verbatim>\<open>Z\<close> and \<^verbatim>\<open>lower\<close> maps these to
  \<^verbatim>\<open>a\<close> to \<^verbatim>\<open>z\<close>.
\<close>

datatype pytext = PyStr string | PyNone | PyInt int

definition truthy :: "pytext \<Rightarrow> bool" where
  "truthy text = (case text of PyStr s \<Rightarrow> s \<noteq> [] | PyNone \<Rightarrow> False | PyInt n \<Rightarrow> n \<noteq> 0)"

definition isupper :: "char \<Rightarrow> bool" where
  "isupper c = (65 \<le> (of_char c :: nat) \<and> (of_char c :: nat) \<le> 90)"

definition lower_char :: "char \<Rightarrow> char" where
  "lower_char c = (if isupper c then char_of ((of_char c :: nat) + 32) else c)"

definition lower :: "string \<Rightarrow> string" where
  "lower s = map lower_char s"

definition islower :: "char \<Rightarrow> bool" where
  "islower c = (97 \<le> (of_char c :: nat) \<and> (of_char c :: nat) \<le> 122)"

definition upper_char :: "char \<Rightarrow> char" where
  "upper_char c = (if islower c then char_of ((of_char c :: nat) - 32) else c)"

definition upper :: "string \<Rightarrow> string" where
  "upper s = map upper_char s"

text \<open>\<^verbatim>\<open>s.startswith(sub)\<close> and \<^verbatim>\<open>sub in s\<close> on strings.\<close>

fun startswith :: "string \<Rightarrow> string \<Rightarrow> bool" where
  "startswith s [] = True"
| "startswith [] (c # sub) = False"
| "startswith (d # s) (c # sub) = (d = c \<and> startswith s sub)"

fun contains :: "string \<Rightarrow> string \<Rightarrow> bool" where
  "contains [] sub = (sub = [])"
| "contains (d # s) sub = (startswith (d # s) sub \<or> contains s sub)"

definition intensity_modifiers_high :: "string list" where
  "intensity_modifiers_high =
    [''very'', ''extremely'', ''incredibly'', ''absolutely'', ''totally'',
     ''completely'', ''utterly'', ''really really'', ''so'', ''!!!'',
     ''tremendously'', ''immensely'', ''super'', ''insanely'',
     ''ridiculously'', ''hugely'', ''wildly'', ''overwhelmingly'',
     ''soooo'', ''nooo way'', ''yesss'', ''omg'', ''oh my god'', ''wow'',
     ''ugh'', ''argh'', ''not at all'', ''never'', ''no way'']"

definition intensity_modifiers_medium :: "string list" where
  "intensity_modifiers_medium =
    [''quite'', ''pretty'', ''rather'', ''fairly'', ''somewhat'', ''really'',
     ''relatively'', ''kind of'', ''sort of'', ''more or less'', ''moderately'',
     ''reasonably'', ''kinda'', ''pretty much'']"

definition intensity_modifiers_low :: "string list" where
  "intensity_modifiers_low =
    [''a bit'', ''slightly'', ''little'', ''maybe'', ''perhaps'', ''not really'',
     ''not sure'', ''sorta'', ''I guess'', ''possibly'', ''kinda small'',
     ''barely'', ''hardly'', ''almost'', ''just a touch'', ''hardly ever'', ''scarcely'']"

text \<open>\<^verbatim>\<open>max(emotion_scores.values()) if emotion_scores else 0\<close>.\<close>

definition max_score_of :: "scores \<Rightarrow> real" where
  "max_score_of emotion_scores =
     (case map snd emotion_scores of [] \<Rightarrow> 0 | v # vs \<Rightarrow> fold max vs v)"

text \<open>
  \<^verbatim>\<open>text.count('!') if text else 0\<close>: a falsy text gives 0 without touching
  \<^verbatim>\<open>text\<close>; a truthy text that is not a string has no \<^verbatim>\<open>count\<close>.
\<close>

definition exclam_of :: "pytext \<Rightarrow> py_error + nat" where
  "exclam_of text =
     (if truthy text then
        (case text of PyStr s \<Rightarrow> Inr (length (filter (\<lambda>c. c = CHR ''!'') s))
                    | _ \<Rightarrow> Inl AttributeError)
      else Inr 0)"

text \<open>\<^verbatim>\<open>sum(1 for c in text if c.isupper()) / max(1, len(text)) if text else 0\<close>.\<close>

definition caps_of :: "pytext \<Rightarrow> py_error + real" where
  "caps_of text =
     (if truthy text then
        (case text of
           PyStr s \<Rightarrow> Inr (real (length (filter isupper s)) / real (max 1 (length s)))
         | _ \<Rightarrow> Inl TypeError)
      else Inr 0)"

definition any_match :: "string list \<Rightarrow> string \<Rightarrow> bool" where
  "any_match mods text_lower = list_ex (\<lambda>m. contains text_lower m) mods"

text \<open>The body of the \<^verbatim>\<open>try\<close> block, statement by statement.\<close>

definition calculate_intensity_body :: "scores \<Rightarrow> pytext \<Rightarrow> py_error + string" where
  "calculate_intensity_body emotion_scores text =
     (let max_score = max_score_of emotion_scores;
          text_lower = (case text of PyStr s \<Rightarrow> lower s | _ \<Rightarrow> [])
      in case exclam_of text of
           Inl e \<Rightarrow> Inl e
         | Inr exclam \<Rightarrow>
        (case caps_of text of
           Inl e \<Rightarrow> Inl e
         | Inr caps \<Rightarrow>
        (let high_match = any_match intensity_modifiers_high text_lower;
             med_match = any_match intensity_modifiers_medium text_lower;
             low_match = any_match intensity_modifiers_low text_lower
         in if max_score \<ge> 0.75 then
              (if exclam > 2 \<or> caps > 0.3 \<or> high_match then Inr ''high''
               else if exclam \<ge> 1 \<or> caps \<ge> 0.1 \<or> med_match then Inr ''medium''
               else if low_match then Inr ''low''
               else Inr ''high'')
            else if max_score \<ge> 0.45 then
              (if exclam \<ge> 3 \<or> caps \<ge> 0.3 \<or> high_match then Inr ''high''
               else if exclam \<ge> 1 \<or> caps \<ge> 0.1 \<or> med_match then Inr ''medium''
               else if low_match then Inr ''low''
               else Inr ''medium'')
            else if exclam \<ge> 3 \<or> caps \<ge> 0.3 \<or> high_match then Inr ''high''
            else if exclam \<ge> 1 \<or> caps \<ge> 0.1 \<or> med_match then Inr ''medium''
            else if low_match then Inr ''low''
            else Inr ''low'')))"

definition calculate_intensity :: "scores \<Rightarrow> pytext \<Rightarrow> string" where
  "calculate_intensity emotion_scores text =
     (case calculate_intensity_body emotion_scores text of
        Inl e \<Rightarrow> ''low''
      | Inr level \<Rightarrow> level)"

subsection \<open>The threshold table of the specification\<close>

text \<open>
  The evidence and the table as the specification words them (section 4.3): the count of
  exclamation marks, the fraction of uppercase characters (0 for the empty text), the
  three lexicon matches on the lowercased text and the maximum score; then twelve rows,
  read top to bottom, the first row whose two conditions hold giving the level. The
  specification leaves the peak of an empty distribution open; it is 0 here.
\<close>

record evidence =
  peak :: real
  exclam :: nat
  caps_ratio :: real
  high_match :: bool
  med_match :: bool
  low_match :: bool

definition spec_evidence :: "scores \<Rightarrow> string \<Rightarrow> evidence" where
  "spec_evidence d t =
     \<lparr>peak = (if d = [] then 0 else Max (snd ` set d)),
      exclam = count_list t CHR ''!'',
      caps_ratio = (if t = [] then 0
                    else real (length (filter isupper t)) / real (length t)),
      high_match = (\<exists>m \<in> set intensity_modifiers_high. contains (lower t) m),
      med_match = (\<exists>m \<in> set intensity_modifiers_medium. contains (lower t) m),
      low_match = (\<exists>m \<in> set intensity_modifiers_low. contains (lower t) m)\<rparr>"

definition spec_intensity_table :: "((evidence \<Rightarrow> bool) \<times> (evidence \<Rightarrow> bool) \<times> string) list" where
  "spec_intensity_table =
    [(\<lambda>e. peak e \<ge> 0.75, \<lambda>e. exclam e > 2 \<or> caps_ratio e > 0.3 \<or> high_match e, ''high''),
     (\<lambda>e. peak e \<ge> 0.75, \<lambda>e. exclam e \<ge> 1 \<or> caps_ratio e \<ge> 0.1 \<or> med_match e, ''medium''),
     (\<lambda>e. peak e \<ge> 0.75, \<lambda>e. low_match e, ''low''),
     (\<lambda>e. peak e \<ge> 0.75, \<lambda>e. True, ''high''),
     (\<lambda>e. peak e \<ge> 0.45, \<lambda>e. exclam e \<ge> 3 \<or> caps_ratio e \<ge> 0.3 \<or> high_match e, ''high''),
     (\<lambda>e. peak e \<ge> 0.45, \<lambda>e. exclam e \<ge> 1 \<or> caps_ratio e \<ge> 0.1 \<or> med_match e, ''medium''),
     (\<lambda>e. peak e \<ge> 0.45, \<lambda>e. low_match e, ''low''),
     (\<lambda>e. peak e \<ge> 0.45, \<lambda>e. True, ''medium''),
     (\<lambda>e. peak e < 0.45, \<lambda>e. exclam e \<ge> 3 \<or> caps_ratio e \<ge> 0.3 \<or> high_match e, ''high''),
     (\<lambda>e. peak e < 0.45, \<lambda>e. exclam e \<ge> 1 \<or> caps_ratio e \<ge> 0.1 \<or> med_match e, ''medium''),
     (\<lambda>e. peak e < 0.45, \<lambda>e. low_match e, ''low''),
     (\<lambda>e. peak e < 0.45, \<lambda>e. True, ''low'')]"

definition spec_intensity :: "evidence \<Rightarrow> string option" where
  "spec_intensity e =
     map_option (\<lambda>(p, c, level). level) (find (\<lambda>(p, c, level). p e \<and> c e) spec_intensity_table)"

subsection \<open>Trend Analyzer: \_calculate\_trend and get\_emotion\_trends\<close>

text \<open>
  The argument of \<^verbatim>\<open>_calculate_trend\<close> is a list (or tuple) of emotion labels, or
  something that is not a sequence. Its entries are strings here, so the
  \<^verbatim>\<open>isinstance(e, str)\<close> tests hold and \<^verbatim>\<open>set(emotions)\<close> cannot raise; neither
  \<^verbatim>\<open>except\<close> clause is reached. \<^verbatim>\<open>len(set(emotions))\<close> is the number of distinct
  entries.
\<close>

datatype pywindow = PySeq "string list" | PyNotSeq

definition calculate_trend :: "pywindow \<Rightarrow> string" where
  "calculate_trend emotions =
     (case emotions of
        PyNotSeq \<Rightarrow> ''insufficient_data''
      | PySeq es \<Rightarrow>
          if es = [] then ''insufficient_data''
          else
            (let pos_count = length (filter (\<lambda>e. e \<in> set positive_emotions) es);
                 neg_count = length (filter (\<lambda>e. e \<in> set negative_emotions) es)
             in if length (remdups es) = 1 then ''stable''
                else if pos_count > neg_count then ''improving''
                else if neg_count > pos_count then ''declining''
                else ''mixed''))"

text \<open>
  An emotion record is a dict read only through
  \<^verbatim>\<open>get('primary_emotion', 'neutral')\<close> and \<^verbatim>\<open>get('intensity', 'low')\<close>: a missing
  key is \<open>None\<close>.
\<close>

record emotion_result =
  primary_emotion :: "string option"
  intensity :: "string option"

definition get_primary_emotion :: "emotion_result \<Rightarrow> string" where
  "get_primary_emotion r = (case primary_emotion r of Some e \<Rightarrow> e | None \<Rightarrow> ''neutral'')"

definition get_intensity :: "emotion_result \<Rightarrow> string" where
  "get_intensity r = (case intensity r of Some i \<Rightarrow> i | None \<Rightarrow> ''low'')"

text \<open>
  \<^verbatim>\<open>deque(maxlen=n).append(x)\<close>: the element goes to the right end, and a deque
  that is then longer than \<open>n\<close> loses its leftmost element. \<^verbatim>\<open>xs[-n:]\<close> keeps the
  last \<open>n\<close> elements, all of them when there are fewer.
\<close>

definition deque_append :: "nat \<Rightarrow> 'a \<Rightarrow> 'a list \<Rightarrow> 'a list" where
  "deque_append maxlen x q = (let q' = q @ [x] in if length q' > maxlen then tl q' else q')"

definition last_n :: "nat \<Rightarrow> 'a list \<Rightarrow> 'a list" where
  "last_n n xs = drop (length xs - n) xs"

text \<open>The second loop of \<^verbatim>\<open>get_emotion_trends\<close>, which fills \<^verbatim>\<open>recent_emotions\<close>.\<close>

definition recent_emotions_of :: "emotion_result list \<Rightarrow> string list" where
  "recent_emotions_of emotion_results =
     fold (\<lambda>r q. deque_append 10 (get_primary_emotion r) q) emotion_results []"

text \<open>The first loop: the counts, in order of first occurrence, and the intensities.\<close>

definition count_emotion :: "emotion_result \<Rightarrow> (string \<times> nat) list \<Rightarrow> (string \<times> nat) list" where
  "count_emotion r emotion_counts =
     (let emotion = get_primary_emotion r
      in AList.update emotion (dict_get emotion_counts emotion 0 + 1) emotion_counts)"

definition emotion_counts_of :: "emotion_result list \<Rightarrow> (string \<times> nat) list" where
  "emotion_counts_of emotion_results = fold count_emotion emotion_results []"

text \<open>
  \<^verbatim>\<open>max(emotion_counts.keys(), key=lambda k: emotion_counts[k])\<close>: the first key
  with the greatest count; \<^verbatim>\<open>max\<close> of no keys raises.
\<close>

definition max_key :: "(string \<times> nat) list \<Rightarrow> py_error + string" where
  "max_key counts =
     (case counts of
        [] \<Rightarrow> Inl ValueError
      | kv # kvs \<Rightarrow> Inr (fst (fold (\<lambda>c best. if snd c > snd best then c else best) kvs kv)))"

definition intensity_value :: "string \<Rightarrow> real" where
  "intensity_value i =
     (if i = ''low'' then 1 else if i = ''medium'' then 2 else if i = ''high'' then 3 else 1)"

text \<open>
  The report. The report for an empty input has three keys only; the other keys are
  \<open>None\<close> there.
\<close>

record trend_report =
  dominant_emotion :: string
  emotion_distribution :: "(string \<times> nat) list option"
  average_intensity :: "real option"
  trend :: string
  total_messages :: "nat option"
  analysis :: string

definition trend_text :: "string \<Rightarrow> string \<Rightarrow> string \<Rightarrow> string" where
  "trend_text short_term_trend medium_term_trend overall =
     ''short-term: '' @ short_term_trend @ '', mid-term: '' @ medium_term_trend
       @ '' and overall: '' @ overall"

text \<open>
  \<^verbatim>\<open>get_emotion_trends\<close>. The assignment to \<^verbatim>\<open>trend\<close> made when fewer than three
  emotions are buffered is overwritten before it is read, so it leaves no trace here.
\<close>

definition get_emotion_trends :: "emotion_result list \<Rightarrow> py_error + trend_report" where
  "get_emotion_trends emotion_results =
     (if emotion_results = [] then
        Inr \<lparr>dominant_emotion = ''neutral'', emotion_distribution = None,
             average_intensity = None, trend = ''stable'', total_messages = None,
             analysis = ''No data available''\<rparr>
      else
        (let emotion_counts = emotion_counts_of emotion_results;
             intensities = map get_intensity emotion_results
         in case max_key emotion_counts of
              Inl e \<Rightarrow> Inl e
            | Inr dominant \<Rightarrow>
           (let avg_intensity = sum_list (map intensity_value intensities)
                                  / real (length intensities);
                recent_emotions = recent_emotions_of emotion_results;
                short_term_trend = calculate_trend (PySeq (last_n 3 recent_emotions));
                medium_window = last_n 7 recent_emotions;
                medium_term_trend = calculate_trend (PySeq medium_window);
                overall = (if short_term_trend = medium_term_trend then short_term_trend
                           else ''mixed'');
                trend = trend_text short_term_trend medium_term_trend overall
            in Inr \<lparr>dominant_emotion = dominant,
                    emotion_distribution = Some emotion_counts,
                    average_intensity = Some avg_intensity,
                    trend = trend,
                    total_messages = Some (length emotion_results),
                    analysis = ''Primary emotion: '' @ upper dominant @ '' with '' @ trend
                                 @ '' trend''\<rparr>)))"

text \<open>The factor the two loops of the adjuster apply to the score of a label.\<close>

definition scale_factor :: "pyval \<Rightarrow> string \<Rightarrow> real" where
  "scale_factor style k =
     (if k \<in> set neutral_emotions then 1
      else if style = Str ''reserved'' then 0.8
      else if style = Str ''expressive'' then 1.2 else 1)"

subsection \<open>Double-precision arithmetic\<close>

text \<open>
  A Python float is an IEEE 754 binary64 number: a multiple of \<open>2 powi q\<close> with a
  significand of at most 53 bits and \<open>q \<ge> - 1074\<close>. Every arithmetic operation returns
  the exact result rounded to the nearest such number, ties going to the even
  significand. \<open>ilog2 x\<close> is the exponent of the leading bit of a positive \<open>x\<close>,
  \<open>ulp x\<close> the spacing of the doubles around \<open>x\<close>, and \<open>round_double\<close> the
  rounding. Results of magnitude \<open>2 ^ 1024\<close> or more, which the hardware turns into
  infinities, are left finite by \<open>round_double\<close>; scores between 0 and 1, their
  products with 0.8 and 1.2 and their sums stay far below that.
\<close>

definition ilog2 :: "real \<Rightarrow> int" where
  "ilog2 x = (if 1 \<le> x then int (floorlog 2 (nat \<lfloor>x\<rfloor>)) - 1
              else - int (floorlog 2 (nat (\<lceil>1 / x\<rceil> - 1))))"

definition round_half_even :: "real \<Rightarrow> int" where
  "round_half_even y =
     (let f = \<lfloor>y\<rfloor>; r = y - of_int f
      in if r < 1/2 then f else if 1/2 < r then f + 1 else if even f then f else f + 1)"

definition ulp :: "real \<Rightarrow> real" where
  "ulp x = 2 powi (max (ilog2 \<bar>x\<bar> - 52) (- 1074))"

definition round_double :: "real \<Rightarrow> real" where
  "round_double x = (if x = 0 then 0 else of_int (round_half_even (x / ulp x)) * ulp x)"

text \<open>The unit roundoff of binary64, and half the smallest positive double.\<close>

definition unit_roundoff :: real where
  "unit_roundoff = 1 / 2 ^ 53"

definition eta :: real where
  "eta = 2 powi (- 1074) / 2"

text \<open>
  \<^verbatim>\<open>sum(d.values())\<close> on floats: the values are added left to right, starting from 0,
  and every partial sum is rounded.
\<close>

definition float_sum :: "real list \<Rightarrow> real" where
  "float_sum vs = fold (\<lambda>v acc. round_double (acc + v)) vs 0"

definition sum_values_double :: "scores \<Rightarrow> real" where
  "sum_values_double d = float_sum (map snd d)"

text \<open>\<^verbatim>\<open>{k: v / total for k, v in d.items()}\<close> on floats: each quotient is rounded.\<close>

fun divide_all_double :: "scores \<Rightarrow> real \<Rightarrow> py_error + scores" where
  "divide_all_double [] t = Inr []"
| "divide_all_double ((k, v) # kvs) t =
     (if t = 0 then Inl ZeroDivisionError
      else (case divide_all_double kvs t of
              Inl e \<Rightarrow> Inl e
            | Inr r \<Rightarrow> Inr ((k, round_double (v / t)) # r)))"

subsection \<open>Cultural Adjuster in double precision\<close>

text \<open>
  \<^verbatim>\<open>_apply_cultural_context\<close> once more, statement by statement as above, with the
  arithmetic of the program: the literals \<^verbatim>\<open>0.8\<close> and \<^verbatim>\<open>1.2\<close> are the doubles
  nearest to them, and each product, partial sum and quotient is rounded. The
  \<^verbatim>\<open>else\<close> arm of the \<^verbatim>\<open>reserved\<close> loop still drops what it computes.
\<close>

definition adjust_scores_double :: "pyval \<Rightarrow> scores \<Rightarrow> scores" where
  "adjust_scores_double style adjusted_scores =
     (if style = Str ''reserved'' then
        map (\<lambda>(emotion, v). if emotion \<notin> set neutral_emotions
                              then (emotion, round_double (v * round_double 0.8))
                              else (emotion, v)) adjusted_scores
      else if style = Str ''expressive'' then
        map (\<lambda>(emotion, v). if emotion \<notin> set neutral_emotions
                              then (emotion, round_double (v * round_double 1.2))
                              else (emotion, v)) adjusted_scores
      else adjusted_scores)"

definition apply_cultural_context_double_body ::
    "culture_table \<Rightarrow> scores \<Rightarrow> string \<Rightarrow> py_error + scores" where
  "apply_cultural_context_double_body cultural_context emotion_scores context =
     (let style = expression_style cultural_context context;
          adjusted_scores = adjust_scores_double style emotion_scores;
          total = sum_values_double adjusted_scores
      in if total > 0 then divide_all_double adjusted_scores total
         else Inr adjusted_scores)"

definition apply_cultural_context_double :: "culture_table \<Rightarrow> scores \<Rightarrow> string \<Rightarrow> scores" where
  "apply_cultural_context_double cultural_context emotion_scores context =
     (case apply_cultural_context_double_body cultural_context emotion_scores context of
        Inl e \<Rightarrow> emotion_scores
      | Inr adjusted_scores \<Rightarrow> adjusted_scores)"

text \<open>One loop of the adjuster with the factor \<open>c\<close>.\<close>

definition scale_double :: "real \<Rightarrow> scores \<Rightarrow> scores" where
  "scale_double c d =
     map (\<lambda>(k, v). if k \<notin> set neutral_emotions then (k, round_double (v * c)) else (k, v)) d"

subsection \<open>Example inputs\<close>

text \<open>The raw scores \<^verbatim>\<open>{joy: 0.9, neutral: 0.1}\<close> of the specification's example,
  as a complete distribution over the taxonomy.\<close>

definition example_scores :: scores where
  "example_scores = AList.update ''joy'' 0.9 (AList.update ''neutral'' 0.1 emotion_scores_init)"

text \<open>The entry \<^verbatim>\<open>{'label': 'neutral', 'score': 0.5}\<close>.\<close>

definition sentinel_item :: item where
  "sentinel_item = \<lparr>label = ''neutral'', score = 0.5\<rparr>"

text \<open>A raw output with one taxonomy label and one label outside the taxonomy.\<close>

definition mixed_input :: "item list" where
  "mixed_input = [\<lparr>label = ''joy'', score = 0.5\<rparr>, \<lparr>label = ''sarcasm'', score = 0.3\<rparr>]"

text \<open>\<^verbatim>\<open>self.emotion_scores\<close> after a first call with \<^verbatim>\<open>[{joy: 0.9}]\<close>.\<close>

definition after_joy :: scores where
  "after_joy = AList.update ''joy'' 1 emotion_scores_init"

text \<open>The history of the specification's example: joy, joy, anger, then joy four times.\<close>

definition spec_history :: "emotion_result list" where
  "spec_history = map (\<lambda>e. \<lparr>primary_emotion = Some e, intensity = Some ''low''\<rparr>)
     [''joy'', ''joy'', ''anger'', ''joy'', ''joy'', ''joy'', ''joy'']"

text \<open>A history of twelve records, two more than the buffer holds.\<close>

definition long_history :: "emotion_result list" where
  "long_history = map (\<lambda>e. \<lparr>primary_emotion = Some e, intensity = None\<rparr>)
     [''sadness'', ''sadness'', ''joy'', ''joy'', ''anger'', ''joy'', ''fear'', ''joy'',
      ''joy'', ''joy'', ''anger'', ''anger'']"

text \<open>
  The distribution \<^verbatim>\<open>{anger: 0.9, joy: 0.1}\<close> over the taxonomy, every other label at
  0.0. The two scores are the doubles that the literals \<^verbatim>\<open>0.9\<close> and \<^verbatim>\<open>0.1\<close>
  denote.
\<close>

definition anger_joy_scores :: scores where
  "anger_joy_scores = AList.update ''anger'' (8106479329266893 / 2 ^ 53)
     (AList.update ''joy'' (3602879701896397 / 2 ^ 55) emotion_scores_init)"

section \<open>Properties\<close>

subsection \<open>Helper lemmas on dictionaries\<close>

lemma distinct_taxonomy: "distinct taxonomy"
  by (simp add: taxonomy_def)

lemma neutral_in_taxonomy: "''neutral'' \<in> set taxonomy"
  by (simp add: taxonomy_def)

lemma divide_all_nonzero:
  "t \<noteq> 0 \<Longrightarrow> divide_all d t = Inr (map (\<lambda>(k, v). (k, v / t)) d)"
  by (induction d) auto

lemma update_tabulated:
  "distinct ks \<Longrightarrow> k \<in> set ks \<Longrightarrow>
   AList.update k v (map (\<lambda>x. (x, f x)) ks) = map (\<lambda>x. (x, (f(k := v)) x)) ks"
  by (induction ks) auto

lemma sum_values_absent:
  "n \<notin> set ks \<Longrightarrow> sum_values (map (\<lambda>x. (x, if x = n then c else 0)) ks) = 0"
  by (induction ks) (auto simp: sum_values_def)

lemma sum_values_single:
  "distinct ks \<Longrightarrow> n \<in> set ks \<Longrightarrow>
   sum_values (map (\<lambda>x. (x, if x = n then c else 0)) ks) = c"
proof (induction ks)
  case Nil
  then show ?case by simp
next
  case (Cons a ks)
  show ?case
  proof (cases "a = n")
    case True
    with Cons.prems have "n \<notin> set ks" by simp
    from sum_values_absent [OF this, of c] True show ?thesis
      by (simp add: sum_values_def)
  next
    case False
    with Cons show ?thesis by (simp add: sum_values_def)
  qed
qed

subsection \<open>Score Normalizer\<close>

lemma has_key_tabulate_neutral: "has_key (tabulate_neutral c) l = (l \<in> set taxonomy)"
  by (simp add: has_key_def tabulate_neutral_def comp_def)

lemma update_neutral_tabulate:
  "AList.update ''neutral'' v (tabulate_neutral c) = tabulate_neutral v"
  unfolding tabulate_neutral_def
  by (simp add: update_tabulated [OF distinct_taxonomy neutral_in_taxonomy] fun_upd_def)

lemma update_zero_tabulate:
  assumes "l \<in> set taxonomy"
  shows "AList.update l 0 (tabulate_neutral c)
         = tabulate_neutral (if l = ''neutral'' then 0 else c)"
proof -
  have "(\<lambda>x. ((\<lambda>k. if k = ''neutral'' then c else 0)(l := 0)) x)
      = (\<lambda>k. if k = ''neutral'' then (if l = ''neutral'' then 0 else c) else 0)"
    by (auto simp: fun_eq_iff)
  then show ?thesis
    unfolding tabulate_neutral_def
    by (simp only: update_tabulated [OF distinct_taxonomy assms])
qed

lemma absorb_item_tabulate:
  assumes "label it \<in> set taxonomy \<longrightarrow> score it = 0" and "c = 0 \<or> c = 0.5"
  shows "\<exists>c'. (c' = 0 \<or> c' = 0.5) \<and> absorb_item it (tabulate_neutral c) = tabulate_neutral c'"
proof (cases "label it \<in> set taxonomy")
  case True
  with assms(1) have "score it = 0" by simp
  with True have "absorb_item it (tabulate_neutral c)
      = tabulate_neutral (if label it = ''neutral'' then 0 else c)"
    by (simp add: absorb_item_def has_key_tabulate_neutral update_zero_tabulate)
  with assms(2) show ?thesis by auto
next
  case False
  then have "absorb_item it (tabulate_neutral c) = tabulate_neutral 0.5"
    by (simp add: absorb_item_def has_key_tabulate_neutral update_neutral_tabulate)
  then show ?thesis by blast
qed

lemma absorb_items_tabulate:
  "\<forall>it \<in> set results. label it \<in> set taxonomy \<longrightarrow> score it = 0 \<Longrightarrow> c = 0 \<or> c = 0.5 \<Longrightarrow>
   \<exists>c'. (c' = 0 \<or> c' = 0.5) \<and> absorb_items results (tabulate_neutral c) = tabulate_neutral c'"
proof (induction results arbitrary: c)
  case Nil
  then show ?case by (auto simp: absorb_items_def)
next
  case (Cons it results)
  from Cons.prems have "label it \<in> set taxonomy \<longrightarrow> score it = 0" by simp
  from absorb_item_tabulate [OF this Cons.prems(2)]
  obtain c1 where c1: "c1 = 0 \<or> c1 = 0.5"
    and step: "absorb_item it (tabulate_neutral c) = tabulate_neutral c1" by blast
  from Cons.prems
  have rest: "\<forall>it \<in> set results. label it \<in> set taxonomy \<longrightarrow> score it = 0" by simp
  from Cons.IH [OF rest c1] step show ?case by (simp add: absorb_items_def)
qed

lemma sum_values_tabulate: "sum_values (tabulate_neutral c) = c"
  unfolding tabulate_neutral_def
  by (rule sum_values_single [OF distinct_taxonomy neutral_in_taxonomy])

lemma divide_tabulate:
  "t \<noteq> 0 \<Longrightarrow> divide_all (tabulate_neutral c) t = Inr (tabulate_neutral (c / t))"
  by (simp add: divide_all_nonzero tabulate_neutral_def)

lemma init_tabulate: "emotion_scores_init = tabulate_neutral 0"
  by (simp add: emotion_scores_init_def tabulate_neutral_def)

lemma neutral_distribution_tabulate: "neutral_distribution = tabulate_neutral 1"
  by (simp add: neutral_distribution_def tabulate_neutral_def)

text \<open>
  Claim C1. Started from the all-zero scores of \<^verbatim>\<open>__init__\<close>, an input that is empty
  or gives every recognised label the score 0 makes \<^verbatim>\<open>_process_model_output\<close> return
  the degenerate distribution, \<^verbatim>\<open>neutral\<close> at 1.0 and every other label at 0.0, and
  the return is a value, not a division error. Labels outside the taxonomy may be present
  with any score.
\<close>

theorem zero_input_gives_neutral_distribution:
  assumes "\<forall>it \<in> set results. has_key emotion_scores_init (label it) \<longrightarrow> score it = 0"
  shows "process_model_output emotion_scores_init results = Inr neutral_distribution"
proof -
  from assms have z: "\<forall>it \<in> set results. label it \<in> set taxonomy \<longrightarrow> score it = 0"
    by (simp add: init_tabulate has_key_tabulate_neutral)
  from absorb_items_tabulate [OF z, of 0]
  obtain c where c: "c = 0 \<or> c = 0.5"
    and s1: "absorb_items results emotion_scores_init = tabulate_neutral c"
    by (auto simp: init_tabulate)
  from c show ?thesis
  proof
    assume "c = 0"
    with s1 show ?thesis
      by (simp add: process_model_output_def sum_values_tabulate update_neutral_tabulate
          neutral_distribution_tabulate)
  next
    assume "c = 0.5"
    with s1 show ?thesis
      by (simp add: process_model_output_def sum_values_tabulate divide_tabulate
          neutral_distribution_tabulate)
  qed
qed

theorem zero_input_gives_neutral_distribution_witness:
  "process_model_output emotion_scores_init
     [\<lparr>label = ''sarcasm'', score = 0.7\<rparr>, \<lparr>label = ''joy'', score = 0\<rparr>]
     = Inr neutral_distribution
   \<and> process_model_output emotion_scores_init [] = Inr neutral_distribution"
  using zero_input_gives_neutral_distribution
          [of "[\<lparr>label = ''sarcasm'', score = 0.7\<rparr>, \<lparr>label = ''joy'', score = 0\<rparr>]"]
        zero_input_gives_neutral_distribution [of "[]"]
  by (simp add: has_key_def emotion_scores_init_def taxonomy_def)

subsection \<open>Cultural Adjuster\<close>

lemma sum_values_divide:
  "sum_values (map (\<lambda>(k, v). (k, v / t)) d) = sum_values d / t"
  by (induction d) (auto simp: sum_values_def add_divide_distrib)

lemma adjust_scores_as_map:
  "adjust_scores style d = map (\<lambda>(k, v). (k, scale_factor style k * v)) d"
proof -
  have "map (\<lambda>(emotion, v). if emotion \<notin> set neutral_emotions then (emotion, v * c)
                              else (emotion, v)) d
        = map (\<lambda>(k, v). (k, (if k \<in> set neutral_emotions then 1 else c) * v)) d" for c :: real
    by (rule map_cong) auto
  moreover have "d = map (\<lambda>(k, v). (k, 1 * v)) d"
    by (induction d) auto
  ultimately show ?thesis
    by (simp add: adjust_scores_def scale_factor_def)
qed

lemma scaled_sum_lower:
  "list_all (\<lambda>(k, v). 0 \<le> v) d \<Longrightarrow> (\<And>k. a \<le> f k) \<Longrightarrow>
   a * sum_values d \<le> sum_values (map (\<lambda>(k, v). (k, f k * v)) d)"
proof (induction d)
  case Nil
  then show ?case by (simp add: sum_values_def)
next
  case (Cons kv d)
  obtain k v where kv: "kv = (k, v)" by (cases kv)
  from Cons.prems kv have "0 \<le> v" by simp
  with Cons.prems(2) [of k] have "a * v \<le> f k * v" by (rule mult_right_mono)
  moreover from Cons have "a * sum_values d \<le> sum_values (map (\<lambda>(k, v). (k, f k * v)) d)"
    by simp
  ultimately show ?case by (simp add: kv sum_values_def distrib_left)
qed

lemma adjusted_sum_lower:
  "list_all (\<lambda>(k, v). 0 \<le> v) d \<Longrightarrow> 0.8 * sum_values d \<le> sum_values (adjust_scores style d)"
  unfolding adjust_scores_as_map
  by (rule scaled_sum_lower) (simp_all add: scale_factor_def)

lemma adjust_scores_nonneg:
  "list_all (\<lambda>(k, v). 0 \<le> v) d \<Longrightarrow> list_all (\<lambda>(k, v). 0 \<le> v) (adjust_scores style d)"
  unfolding adjust_scores_as_map
  by (induction d) (auto simp: scale_factor_def)

lemma divide_nonneg:
  "0 < t \<Longrightarrow> list_all (\<lambda>(k, v). 0 \<le> v) (d :: scores) \<Longrightarrow>
   list_all (\<lambda>(k, v). 0 \<le> v) (map (\<lambda>(k, v). (k, v / t)) d)"
  by (induction d) (auto simp: zero_le_divide_iff)

lemma apply_cultural_context_complete:
  assumes "complete_distribution d"
  shows "apply_cultural_context_body ctx d c
         = Inr (map (\<lambda>(k, v). (k, v / sum_values (adjust_scores (expression_style ctx c) d)))
                  (adjust_scores (expression_style ctx c) d))"
    and "0.8 \<le> sum_values (adjust_scores (expression_style ctx c) d)"
proof -
  from assms have nn: "list_all (\<lambda>(k, v). 0 \<le> v) d" and one: "sum_values d = 1"
    by (simp_all add: complete_distribution_def)
  from adjusted_sum_lower [OF nn, of "expression_style ctx c"] one
  show low: "0.8 \<le> sum_values (adjust_scores (expression_style ctx c) d)" by simp
  then show "apply_cultural_context_body ctx d c
         = Inr (map (\<lambda>(k, v). (k, v / sum_values (adjust_scores (expression_style ctx c) d)))
                  (adjust_scores (expression_style ctx c) d))"
    by (simp add: apply_cultural_context_body_def Let_def divide_all_nonzero)
qed

text \<open>
  Claim C2. For a complete distribution (no negative score, sum 1) and any table of
  cultural profiles and context name, the body of \<^verbatim>\<open>_apply_cultural_context\<close>
  raises nothing and the method returns a complete distribution again: no negative
  score, and the scores sum to 1 (exactly, in real arithmetic).
\<close>

theorem cultural_adjuster_keeps_distribution:
  assumes "complete_distribution emotion_scores"
  shows "(\<exists>adjusted. apply_cultural_context_body cultural_context emotion_scores context = Inr adjusted)
       \<and> complete_distribution (apply_cultural_context cultural_context emotion_scores context)"
proof -
  let ?adj = "adjust_scores (expression_style cultural_context context) emotion_scores"
  note body = apply_cultural_context_complete [OF assms, of cultural_context "context"]
  from body(2) have pos: "0 < sum_values ?adj" by simp
  from assms have nn: "list_all (\<lambda>(k, v). 0 \<le> v) emotion_scores"
    by (simp add: complete_distribution_def)
  have "list_all (\<lambda>(k, v). 0 \<le> v) (map (\<lambda>(k, v). (k, v / sum_values ?adj)) ?adj)"
    by (rule divide_nonneg [OF pos adjust_scores_nonneg [OF nn]])
  moreover have "sum_values (map (\<lambda>(k, v). (k, v / sum_values ?adj)) ?adj) = 1"
    using pos by (simp add: sum_values_divide)
  ultimately show ?thesis
    by (simp add: apply_cultural_context_def body(1) complete_distribution_def)
qed

lemma example_scores_complete: "complete_distribution example_scores"
  by (simp add: example_scores_def complete_distribution_def emotion_scores_init_def taxonomy_def sum_values_def)

theorem cultural_adjuster_keeps_distribution_witness:
  "(\<exists>adjusted. apply_cultural_context_body load_cultural_context example_scores ''eastern''
                 = Inr adjusted)
   \<and> complete_distribution
        (apply_cultural_context load_cultural_context example_scores ''eastern'')"
  using cultural_adjuster_keeps_distribution
          [OF example_scores_complete, of load_cultural_context "''eastern''"]
  by simp


subsection \<open>Rounding to double precision\<close>

text \<open>
  \<open>ilog2 x\<close> is the floor of the binary logarithm of a positive \<open>x\<close>
  (\<open>ilog2_lower\<close>, \<open>ilog2_upper\<close>). The rounding error of \<open>round_double\<close> is at
  most half a unit in the last place: relative \<open>unit_roundoff\<close> in the normal range,
  absolute \<open>eta\<close> below it.
\<close>

lemma eta_pos: "0 < eta"
  unfolding eta_def by (intro divide_pos_pos zero_less_power_int) simp_all

lemma round_half_even_error: "\<bar>of_int (round_half_even y) - y\<bar> \<le> 1 / 2"
proof -
  have "of_int \<lfloor>y\<rfloor> \<le> y" "y < of_int \<lfloor>y\<rfloor> + 1" by linarith+
  then show ?thesis
    by (auto simp: round_half_even_def Let_def)
qed

lemma round_half_even_nonneg: "0 \<le> y \<Longrightarrow> 0 \<le> round_half_even y"
  by (auto simp: round_half_even_def Let_def)

lemma ilog2_lower: "0 < x \<Longrightarrow> 2 powi (ilog2 x) \<le> x"
proof (cases "1 \<le> x")
  case True
  let ?n = "nat \<lfloor>x\<rfloor>"
  let ?k = "floorlog 2 ?n"
  from True have n: "0 < ?n" by simp
  from floorlog_bounds [OF n, of 2] have "2 ^ (?k - 1) \<le> ?n" by simp
  then have "real (2 ^ (?k - 1)) \<le> real ?n"
    by (simp only: of_nat_le_iff)
  then have "(2::real) ^ (?k - 1) \<le> real ?n"
    by simp
  also have "real ?n \<le> x" using True by simp
  finally have low: "(2::real) ^ (?k - 1) \<le> x" .
  have "0 < ?k" using n by (simp add: floorlog_def)
  then have "int ?k - 1 = int (?k - 1)" by arith
  with True have "ilog2 x = int (?k - 1)" by (simp only: ilog2_def if_True)
  then have "2 powi (ilog2 x) = (2::real) ^ (?k - 1)" by (simp only: power_int_of_nat)
  with low show ?thesis by simp
next
  case False
  assume pos: "0 < x"
  let ?m = "nat (\<lceil>1 / x\<rceil> - 1)"
  let ?k = "floorlog 2 ?m"
  from False pos have "x < 1" by simp
  with pos have "1 < 1 / x" by (simp add: field_simps)
  then have c: "2 \<le> \<lceil>1 / x\<rceil>" by linarith
  then have m: "0 < ?m" by simp
  from floorlog_bounds [OF m, of 2] have "?m < 2 ^ ?k" by simp
  then have lt: "int ?m < int (2 ^ ?k)"
    by (simp only: of_nat_less_iff)
  from c have "0 \<le> \<lceil>1 / x\<rceil> - 1" by linarith
  then have im: "int ?m = \<lceil>1 / x\<rceil> - 1" by (simp only: int_nat_eq if_True)
  from lt [unfolded im] have "\<lceil>1 / x\<rceil> \<le> 2 ^ ?k" by simp
  then have up: "real_of_int \<lceil>1 / x\<rceil> \<le> real_of_int (2 ^ ?k)"
    by (simp only: of_int_le_iff)
  have "1 / x \<le> real_of_int \<lceil>1 / x\<rceil>" by (rule le_of_int_ceiling)
  also note up
  also have "real_of_int (2 ^ ?k) = 2 ^ ?k" by simp
  finally have "1 / x \<le> 2 ^ ?k" .
  with pos have "1 \<le> 2 ^ ?k * x"
    by (simp add: pos_divide_le_eq)
  then have "1 / 2 ^ ?k \<le> x"
    by (simp add: pos_divide_le_eq mult.commute)
  moreover from False have "ilog2 x = - int ?k" by (simp only: ilog2_def if_False)
  then have "2 powi (ilog2 x) = 1 / (2::real) ^ ?k"
    by (simp only: power_int_minus_divide power_int_of_nat)
  ultimately show ?thesis by simp
qed

lemma ilog2_upper: "0 < x \<Longrightarrow> x < 2 powi (ilog2 x + 1)"
proof (cases "1 \<le> x")
  case True
  let ?n = "nat \<lfloor>x\<rfloor>"
  let ?k = "floorlog 2 ?n"
  from True have n: "0 < ?n" by simp
  from floorlog_bounds [OF n, of 2] have "?n < 2 ^ ?k" by simp
  then have "int ?n < int (2 ^ ?k)" by (simp only: of_nat_less_iff)
  moreover from True have "int ?n = \<lfloor>x\<rfloor>" by simp
  ultimately have "\<lfloor>x\<rfloor> + 1 \<le> 2 ^ ?k" by simp
  then have "real_of_int (\<lfloor>x\<rfloor> + 1) \<le> real_of_int (2 ^ ?k)"
    by (simp only: of_int_le_iff)
  then have "real_of_int \<lfloor>x\<rfloor> + 1 \<le> 2 ^ ?k" by simp
  moreover have "x < real_of_int \<lfloor>x\<rfloor> + 1" by linarith
  ultimately have up: "x < 2 ^ ?k" by linarith
  from True have "ilog2 x + 1 = int ?k" by (simp only: ilog2_def if_True)
  then have "2 powi (ilog2 x + 1) = (2::real) ^ ?k" by (simp only: power_int_of_nat)
  with up show ?thesis by simp
next
  case False
  assume pos: "0 < x"
  let ?m = "nat (\<lceil>1 / x\<rceil> - 1)"
  let ?k = "floorlog 2 ?m"
  from False pos have "x < 1" by simp
  with pos have "1 < 1 / x" by (simp add: field_simps)
  then have c: "2 \<le> \<lceil>1 / x\<rceil>" by linarith
  then have m: "0 < ?m" by simp
  then have k: "0 < ?k" by (simp add: floorlog_def)
  from floorlog_bounds [OF m, of 2] have "2 ^ (?k - 1) \<le> ?m" by simp
  then have le: "int (2 ^ (?k - 1)) \<le> int ?m" by (simp only: of_nat_le_iff)
  from c have "0 \<le> \<lceil>1 / x\<rceil> - 1" by linarith
  then have im: "int ?m = \<lceil>1 / x\<rceil> - 1" by (simp only: int_nat_eq if_True)
  from le [unfolded im] have "real_of_int (int (2 ^ (?k - 1))) \<le> real_of_int (\<lceil>1 / x\<rceil> - 1)"
    by (simp only: of_int_le_iff)
  then have "2 ^ (?k - 1) \<le> real_of_int \<lceil>1 / x\<rceil> - 1" by simp
  moreover have "real_of_int \<lceil>1 / x\<rceil> - 1 < 1 / x" by linarith
  ultimately have "2 ^ (?k - 1) < 1 / x" by linarith
  with pos have "x * 2 ^ (?k - 1) < 1" by (simp add: pos_less_divide_eq mult.commute)
  then have up: "x < 1 / 2 ^ (?k - 1)" by (simp add: pos_less_divide_eq)
  from k have "- int ?k + 1 = - int (?k - 1)" by arith
  with False have "ilog2 x + 1 = - int (?k - 1)" by (simp only: ilog2_def if_False)
  then have "2 powi (ilog2 x + 1) = 1 / (2::real) ^ (?k - 1)"
    by (simp only: power_int_minus_divide power_int_of_nat)
  with up show ?thesis by simp
qed

lemma ulp_pos: "0 < ulp x"
  by (simp add: ulp_def)

lemma ulp_half_bound:
  assumes "x \<noteq> 0"
  shows "ulp x / 2 \<le> unit_roundoff * \<bar>x\<bar> + eta"
proof (cases "- 1074 \<le> ilog2 \<bar>x\<bar> - 52")
  case True
  then have "ulp x = 2 powi (ilog2 \<bar>x\<bar> - 52)" by (simp only: ulp_def max_absorb1)
  also have "\<dots> = 2 powi (ilog2 \<bar>x\<bar>) / 2 ^ 52"
    by (simp add: power_int_diff)
  also have "\<dots> \<le> \<bar>x\<bar> / 2 ^ 52"
    using ilog2_lower [of "\<bar>x\<bar>"] assms by (simp add: divide_right_mono)
  finally have "ulp x / 2 \<le> unit_roundoff * \<bar>x\<bar>" by (simp add: unit_roundoff_def)
  moreover have "0 \<le> eta" using eta_pos by simp
  ultimately show ?thesis by linarith
next
  case False
  then have "ilog2 \<bar>x\<bar> - 52 \<le> - 1074" by simp
  then have "ulp x = 2 powi (- 1074)" by (simp only: ulp_def max_absorb2)
  then have "ulp x / 2 = eta" by (simp only: eta_def)
  moreover have "0 \<le> unit_roundoff * \<bar>x\<bar>" by (simp add: unit_roundoff_def)
  ultimately show ?thesis by linarith
qed

lemma round_double_error: "\<bar>round_double x - x\<bar> \<le> unit_roundoff * \<bar>x\<bar> + eta"
proof (cases "x = 0")
  case True
  then show ?thesis using eta_pos by (simp add: round_double_def)
next
  case False
  let ?Q = "ulp x"
  have Q: "0 < ?Q" by (rule ulp_pos)
  have "round_double x - x = (of_int (round_half_even (x / ?Q)) - x / ?Q) * ?Q"
    using False Q by (simp add: round_double_def field_simps)
  then have "\<bar>round_double x - x\<bar> = \<bar>of_int (round_half_even (x / ?Q)) - x / ?Q\<bar> * ?Q"
    using Q by (simp add: abs_mult)
  also have "\<dots> \<le> (1 / 2) * ?Q"
    using round_half_even_error [of "x / ?Q"] Q by (intro mult_right_mono) simp_all
  also have "\<dots> \<le> unit_roundoff * \<bar>x\<bar> + eta"
    using ulp_half_bound [OF False] by simp
  finally show ?thesis .
qed

lemma round_double_nonneg: "0 \<le> x \<Longrightarrow> 0 \<le> round_double x"
  using ulp_pos [of x] round_half_even_nonneg [of "x / ulp x"]
  by (simp add: round_double_def)

lemma round_double_lower: "0 \<le> x \<Longrightarrow> x * (1 - unit_roundoff) - eta \<le> round_double x"
  using round_double_error [of x] by (simp add: algebra_simps abs_le_iff)

lemma round_double_upper: "0 \<le> x \<Longrightarrow> round_double x \<le> x * (1 + unit_roundoff) + eta"
  using round_double_error [of x] by (simp add: algebra_simps abs_le_iff)

text \<open>The rounded left-to-right sum of non-negative numbers against their exact sum.\<close>

lemma unit_roundoff_range: "0 < unit_roundoff" "unit_roundoff < 1"
  by (simp_all add: unit_roundoff_def)

lemma eta_small: "eta \<le> 1 / 2 ^ 100"
proof -
  have "(2::real) powi (- 1074) \<le> 2 powi (- 99)"
    by (rule power_int_increasing) simp_all
  also have "(2::real) powi (- 99) = 2 / 2 ^ 100"
    by (simp add: power_int_minus_divide)
  finally show ?thesis by (simp only: eta_def)
qed

lemma fold_round_nonneg:
  "0 \<le> acc \<Longrightarrow> \<forall>v \<in> set vs. 0 \<le> v \<Longrightarrow>
   0 \<le> fold (\<lambda>v acc. round_double (acc + v)) vs acc"
  by (induction vs arbitrary: acc) (simp_all add: round_double_nonneg)

lemma fold_round_lower:
  "0 \<le> acc \<Longrightarrow> \<forall>v \<in> set vs. 0 \<le> v \<Longrightarrow>
   (acc + sum_list vs) * (1 - unit_roundoff) ^ length vs - real (length vs) * eta
   \<le> fold (\<lambda>v acc. round_double (acc + v)) vs acc"
proof (induction vs arbitrary: acc)
  case Nil
  then show ?case by simp
next
  case (Cons a vs)
  let ?u = unit_roundoff
  let ?m = "length vs"
  let ?p = "(1 - ?u) ^ ?m"
  let ?F = "\<lambda>v acc. round_double (acc + v)"
  from Cons.prems have a: "0 \<le> a" and vs: "\<forall>v \<in> set vs. 0 \<le> v" by simp_all
  from Cons.prems a have s: "0 \<le> acc + a" by simp
  have p0: "0 \<le> ?p" using unit_roundoff_range by simp
  have p1: "?p \<le> 1" using unit_roundoff_range by (simp add: power_le_one)
  have sv: "0 \<le> sum_list vs" using vs by (simp add: sum_list_nonneg)
  have r: "(acc + a) * (1 - ?u) - eta \<le> round_double (acc + a)"
    by (rule round_double_lower [OF s])
  have "((acc + a) * (1 - ?u) - eta + sum_list vs) * ?p - real ?m * eta
        \<le> (round_double (acc + a) + sum_list vs) * ?p - real ?m * eta"
    using r p0 by (simp add: mult_right_mono)
  also have "\<dots> \<le> fold ?F vs (round_double (acc + a))"
    by (rule Cons.IH [OF round_double_nonneg [OF s] vs])
  finally have step: "((acc + a) * (1 - ?u) - eta + sum_list vs) * ?p - real ?m * eta
        \<le> fold ?F (a # vs) acc" by simp
  have "sum_list vs * (1 - ?u) \<le> sum_list vs"
    using sv unit_roundoff_range by (simp add: mult_left_le)
  then have "(acc + a + sum_list vs) * (1 - ?u) - eta
             \<le> (acc + a) * (1 - ?u) - eta + sum_list vs"
    by (simp add: algebra_simps)
  then have "((acc + a + sum_list vs) * (1 - ?u) - eta) * ?p
             \<le> ((acc + a) * (1 - ?u) - eta + sum_list vs) * ?p"
    using p0 by (rule mult_right_mono)
  moreover have "eta * ?p \<le> eta" using p1 eta_pos by (simp add: mult_left_le)
  ultimately have
    "(acc + a + sum_list vs) * ((1 - ?u) * ?p) - eta - real ?m * eta
     \<le> ((acc + a) * (1 - ?u) - eta + sum_list vs) * ?p - real ?m * eta"
    by (simp add: algebra_simps)
  with step show ?case by (simp add: algebra_simps)
qed

lemma fold_round_upper:
  "0 \<le> acc \<Longrightarrow> \<forall>v \<in> set vs. 0 \<le> v \<Longrightarrow>
   fold (\<lambda>v acc. round_double (acc + v)) vs acc
   \<le> (acc + sum_list vs + real (length vs) * eta) * (1 + unit_roundoff) ^ length vs"
proof (induction vs arbitrary: acc)
  case Nil
  then show ?case by simp
next
  case (Cons a vs)
  let ?u = unit_roundoff
  let ?m = "length vs"
  let ?q = "(1 + ?u) ^ ?m"
  let ?F = "\<lambda>v acc. round_double (acc + v)"
  from Cons.prems have a: "0 \<le> a" and vs: "\<forall>v \<in> set vs. 0 \<le> v" by simp_all
  from Cons.prems a have s: "0 \<le> acc + a" by simp
  have q0: "0 \<le> ?q" using unit_roundoff_range by simp
  have sv: "0 \<le> sum_list vs" using vs by (simp add: sum_list_nonneg)
  have r: "round_double (acc + a) \<le> (acc + a) * (1 + ?u) + eta"
    by (rule round_double_upper [OF s])
  have "fold ?F (a # vs) acc = fold ?F vs (round_double (acc + a))" by simp
  also have "\<dots> \<le> (round_double (acc + a) + sum_list vs + real ?m * eta) * ?q"
    by (rule Cons.IH [OF round_double_nonneg [OF s] vs])
  also have "\<dots> \<le> ((acc + a) * (1 + ?u) + eta + sum_list vs + real ?m * eta) * ?q"
    using r q0 by (simp add: mult_right_mono)
  also have "\<dots> \<le> ((acc + a + sum_list vs + real (Suc ?m) * eta) * (1 + ?u)) * ?q"
  proof (rule mult_right_mono [OF _ q0])
    have "0 \<le> (sum_list vs + real (Suc ?m) * eta) * ?u"
      using sv eta_pos unit_roundoff_range by simp
    then show "(acc + a) * (1 + ?u) + eta + sum_list vs + real ?m * eta
               \<le> (acc + a + sum_list vs + real (Suc ?m) * eta) * (1 + ?u)"
      by (simp add: algebra_simps)
  qed
  finally show ?case by (simp add: algebra_simps)
qed

lemma float_sum_nonneg: "\<forall>v \<in> set vs. 0 \<le> v \<Longrightarrow> 0 \<le> float_sum vs"
  unfolding float_sum_def by (rule fold_round_nonneg) simp_all

lemma float_sum_lower:
  "\<forall>v \<in> set vs. 0 \<le> v \<Longrightarrow>
   sum_list vs * (1 - unit_roundoff) ^ length vs - real (length vs) * eta \<le> float_sum vs"
  using fold_round_lower [of 0 vs] by (simp add: float_sum_def)

lemma float_sum_upper:
  "\<forall>v \<in> set vs. 0 \<le> v \<Longrightarrow>
   float_sum vs \<le> (sum_list vs + real (length vs) * eta) * (1 + unit_roundoff) ^ length vs"
  using fold_round_upper [of 0 vs] by (simp add: float_sum_def)

lemma power_one_minus_lower:
  assumes "n \<le> 1024"
  shows "1 - 1 / 2 ^ 43 \<le> (1 - unit_roundoff) ^ n"
proof -
  have "1 + real n * (- unit_roundoff) \<le> (1 + (- unit_roundoff)) ^ n"
    by (rule Bernoulli_inequality) (simp add: unit_roundoff_def)
  moreover have "real n * unit_roundoff \<le> 1024 * unit_roundoff"
    using assms unit_roundoff_range by simp
  ultimately show ?thesis by (simp add: unit_roundoff_def)
qed

lemma power_one_plus_upper:
  assumes "n \<le> 1024"
  shows "(1 + unit_roundoff) ^ n \<le> 1 + 1 / 2 ^ 42"
proof -
  let ?u = unit_roundoff
  have "(1 + ?u) ^ n * (1 - ?u) ^ n = ((1 + ?u) * (1 - ?u)) ^ n"
    by (simp add: power_mult_distrib)
  also have "\<dots> \<le> 1"
  proof (rule power_le_one)
    have sq: "0 \<le> ?u * ?u" "?u * ?u \<le> 1"
      using unit_roundoff_range by (simp_all add: mult_le_one)
    have "(1 + ?u) * (1 - ?u) = 1 - ?u * ?u" by (simp add: algebra_simps)
    with sq show "0 \<le> (1 + ?u) * (1 - ?u)" "(1 + ?u) * (1 - ?u) \<le> 1" by simp_all
  qed
  finally have prod: "(1 + ?u) ^ n * (1 - ?u) ^ n \<le> 1" .
  have q0: "0 \<le> (1 + ?u) ^ n" using unit_roundoff_range by simp
  from power_one_minus_lower [OF assms] q0
  have "(1 + ?u) ^ n * (1 - 1 / 2 ^ 43) \<le> (1 + ?u) ^ n * (1 - ?u) ^ n"
    by (rule mult_left_mono)
  with prod have "(1 + ?u) ^ n * (1 - 1 / 2 ^ 43) \<le> 1" by linarith
  then show ?thesis by (simp add: field_simps)
qed

text \<open>Evaluation of \<open>round_double\<close> on numerals, and the doubles of four literals.\<close>

lemma floorlog_numeral_step:
  "floorlog 2 (numeral n) = floorlog 2 (numeral n div 2) + 1"
  by (subst compute_floorlog) simp

lemma floorlog_small: "floorlog 2 (Suc 0) = 1" "floorlog 2 1 = 1" "floorlog 2 0 = 0"
  by (simp_all add: compute_floorlog)

lemmas round_double_eval =
  round_double_def ulp_def ilog2_def floorlog_numeral_step floorlog_small
  round_half_even_def Let_def

lemma double_literals:
  "round_double 0.8 = 3602879701896397 / 2 ^ 52"
  "round_double 1.2 = 5404319552844595 / 2 ^ 52"
  "round_double 0.9 = 8106479329266893 / 2 ^ 53"
  "round_double 0.1 = 3602879701896397 / 2 ^ 55"
  by (simp_all add: round_double_eval)

subsection \<open>Cultural Adjuster in double precision\<close>

lemma divide_all_double_nonzero:
  "t \<noteq> 0 \<Longrightarrow> divide_all_double d t = Inr (map (\<lambda>(k, v). (k, round_double (v / t))) d)"
  by (induction d) auto

lemma adjust_scores_double_scale:
  "adjust_scores_double style d =
     (if style = Str ''reserved'' then scale_double (round_double 0.8) d
      else if style = Str ''expressive'' then scale_double (round_double 1.2) d
      else d)"
  by (simp only: adjust_scores_double_def scale_double_def)

lemma map_of_scale_double:
  "map_of (scale_double c d) k
   = (if k \<in> set neutral_emotions then map_of d k
      else map_option (\<lambda>v. round_double (v * c)) (map_of d k))"
  by (induction d) (auto simp: scale_double_def)

lemma map_of_rounded_quotient:
  "map_of (map (\<lambda>(k, v). (k, round_double (v / t))) d) k
   = map_option (\<lambda>v. round_double (v / t)) (map_of d k)"
  by (induction d) auto

lemma length_scale_double: "length (scale_double c d) = length d"
  by (simp add: scale_double_def)

lemma scale_double_nonneg:
  "0 \<le> c \<Longrightarrow> list_all (\<lambda>(k, v). 0 \<le> v) d \<Longrightarrow>
   list_all (\<lambda>(k, v). 0 \<le> v) (scale_double c d)"
  by (induction d)
     (auto simp: scale_double_def split: if_splits intro!: round_double_nonneg mult_nonneg_nonneg)

lemma scale_double_sum_lower:
  assumes "0 \<le> c" "list_all (\<lambda>(k, v). 0 \<le> v) d"
  shows "min c 1 * (1 - unit_roundoff) * sum_values d - real (length d) * eta
         \<le> sum_values (scale_double c d)"
  using assms(2)
proof (induction d)
  case Nil
  then show ?case by (simp add: sum_values_def scale_double_def)
next
  case (Cons kv d)
  obtain k v where kv: "kv = (k, v)" by (cases kv)
  let ?u = unit_roundoff
  let ?w = "snd (if k \<notin> set neutral_emotions then (k, round_double (v * c)) else (k, v))"
  from Cons.prems kv have v: "0 \<le> v" and d: "list_all (\<lambda>(k, v). 0 \<le> v) d" by simp_all
  have f: "0 \<le> min c 1 * (1 - ?u)" "min c 1 * (1 - ?u) \<le> c * (1 - ?u)"
    "min c 1 * (1 - ?u) \<le> 1"
    using assms(1) unit_roundoff_range by (simp_all add: min_def mult_le_one)
  have "min c 1 * (1 - ?u) * v - eta \<le> ?w"
  proof (cases "k \<in> set neutral_emotions")
    case True
    have "min c 1 * (1 - ?u) * v \<le> 1 * v" using f(3) v by (rule mult_right_mono)
    with True eta_pos show ?thesis by simp
  next
    case False
    have "min c 1 * (1 - ?u) * v \<le> c * (1 - ?u) * v" using f(2) v by (rule mult_right_mono)
    moreover have "(v * c) * (1 - ?u) - eta \<le> round_double (v * c)"
      using v assms(1) by (intro round_double_lower) simp
    ultimately show ?thesis using False by (simp add: algebra_simps)
  qed
  moreover have "min c 1 * (1 - ?u) * sum_values d - real (length d) * eta
                 \<le> sum_values (scale_double c d)"
    by (rule Cons.IH [OF d])
  ultimately show ?case
    by (simp add: kv sum_values_def scale_double_def algebra_simps)
qed

lemma scale_double_sum_upper:
  assumes "0 \<le> c" "list_all (\<lambda>(k, v). 0 \<le> v) d"
  shows "sum_values (scale_double c d)
         \<le> max c 1 * (1 + unit_roundoff) * sum_values d + real (length d) * eta"
  using assms(2)
proof (induction d)
  case Nil
  then show ?case by (simp add: sum_values_def scale_double_def)
next
  case (Cons kv d)
  obtain k v where kv: "kv = (k, v)" by (cases kv)
  let ?u = unit_roundoff
  let ?w = "snd (if k \<notin> set neutral_emotions then (k, round_double (v * c)) else (k, v))"
  from Cons.prems kv have v: "0 \<le> v" and d: "list_all (\<lambda>(k, v). 0 \<le> v) d" by simp_all
  have f: "c * (1 + ?u) \<le> max c 1 * (1 + ?u)" "1 \<le> max c 1 * (1 + ?u)"
  proof -
    show "c * (1 + ?u) \<le> max c 1 * (1 + ?u)"
      using unit_roundoff_range by (intro mult_right_mono) simp_all
    have "1 * 1 \<le> max c 1 * (1 + ?u)"
      using unit_roundoff_range by (intro mult_mono) simp_all
    then show "1 \<le> max c 1 * (1 + ?u)" by simp
  qed
  have "?w \<le> max c 1 * (1 + ?u) * v + eta"
  proof (cases "k \<in> set neutral_emotions")
    case True
    have "1 * v \<le> max c 1 * (1 + ?u) * v" using f(2) v by (rule mult_right_mono)
    with True eta_pos show ?thesis by simp
  next
    case False
    have "c * (1 + ?u) * v \<le> max c 1 * (1 + ?u) * v" using f(1) v by (rule mult_right_mono)
    moreover have "round_double (v * c) \<le> (v * c) * (1 + ?u) + eta"
      using v assms(1) by (intro round_double_upper) simp
    ultimately show ?thesis using False by (simp add: algebra_simps)
  qed
  moreover have "sum_values (scale_double c d)
                 \<le> max c 1 * (1 + ?u) * sum_values d + real (length d) * eta"
    by (rule Cons.IH [OF d])
  ultimately show ?case
    by (simp add: kv sum_values_def scale_double_def algebra_simps)
qed

lemma four_eta: "4 * eta = 2 powi (- 1073)"
proof -
  have "(- 1073::int) = - 1074 + 1" by simp
  then have "(2::real) powi (- 1073) = 2 powi (- 1074 + 1)" by (simp only:)
  also have "\<dots> = 2 powi (- 1074) * 2" by (rule power_int_add_1) simp
  finally show ?thesis by (simp only: eta_def)
qed

lemma slack_bound: "n \<le> 1024 \<Longrightarrow> real n * eta \<le> 1 / 2 ^ 90"
proof -
  assume "n \<le> 1024"
  then have "real n * eta \<le> 1024 * eta" using eta_pos by simp
  also have "\<dots> \<le> 1024 * (1 / 2 ^ 100)" using eta_small by simp
  also have "\<dots> = 1 / 2 ^ 90" by simp
  finally show ?thesis .
qed

lemma snd_nonneg:
  "list_all (\<lambda>(k, v). 0 \<le> v) (d :: scores) \<Longrightarrow> \<forall>v \<in> set (map snd d). 0 \<le> v"
  by (auto simp: list_all_iff)

lemma total_lower:
  assumes c: "1 / 2 \<le> c"
      and nn: "list_all (\<lambda>(k, v). 0 \<le> v) d"
      and len: "length d \<le> 1024"
      and S: "1 - 1 / 2 ^ 40 \<le> sum_values d"
  shows "min c 1 * (1 - 1 / 2 ^ 39) \<le> sum_values_double (scale_double c d)"
proof -
  let ?u = unit_roundoff
  let ?n = "length d"
  let ?cl = "min c 1"
  let ?A = "sum_values (scale_double c d)"
  let ?p = "(1 - ?u) ^ ?n"
  from c have c0: "0 \<le> c" by simp
  from c have cl: "1 / 2 \<le> ?cl" "?cl \<le> 1" by simp_all
  note eps = slack_bound [OF len]
  have f0: "0 \<le> ?cl * (1 - ?u)" using cl unit_roundoff_range by simp
  have "?cl * (1 - ?u) * (1 - 1 / 2 ^ 40) \<le> ?cl * (1 - ?u) * sum_values d"
    using S f0 by (rule mult_left_mono)
  with scale_double_sum_lower [OF c0 nn] eps
  have A: "?cl * (1 - ?u) * (1 - 1 / 2 ^ 40) - 1 / 2 ^ 90 \<le> ?A" by linarith
  have A0: "0 \<le> ?cl * (1 - ?u) * (1 - 1 / 2 ^ 40) - 1 / 2 ^ 90"
    using cl(1) by (simp add: unit_roundoff_def)
  have p: "1 - 1 / 2 ^ 43 \<le> ?p" by (rule power_one_minus_lower [OF len])
  have "(?cl * (1 - ?u) * (1 - 1 / 2 ^ 40) - 1 / 2 ^ 90) * (1 - 1 / 2 ^ 43) \<le> ?A * ?p"
    using A p by (rule mult_mono) (use A A0 in simp_all)
  moreover have "?A * ?p - real ?n * eta \<le> sum_values_double (scale_double c d)"
    using float_sum_lower [OF snd_nonneg [OF scale_double_nonneg [OF c0 nn]]]
    by (simp add: sum_values_double_def sum_values_def length_scale_double)
  moreover have "?cl * (1 - 1 / 2 ^ 39)
      \<le> (?cl * (1 - ?u) * (1 - 1 / 2 ^ 40) - 1 / 2 ^ 90) * (1 - 1 / 2 ^ 43) - 1 / 2 ^ 90"
    using cl(1) by (simp add: unit_roundoff_def algebra_simps)
  ultimately show ?thesis using eps by linarith
qed

lemma total_upper:
  assumes c: "1 / 2 \<le> c"
      and nn: "list_all (\<lambda>(k, v). 0 \<le> v) d"
      and len: "length d \<le> 1024"
      and S: "sum_values d \<le> 1 + 1 / 2 ^ 40"
  shows "sum_values_double (scale_double c d) \<le> max c 1 * (1 + 1 / 2 ^ 39)"
proof -
  let ?u = unit_roundoff
  let ?n = "length d"
  let ?ch = "max c 1"
  let ?A = "sum_values (scale_double c d)"
  let ?q = "(1 + ?u) ^ ?n"
  from c have c0: "0 \<le> c" by simp
  have ch: "1 \<le> ?ch" by simp
  note eps = slack_bound [OF len]
  have f0: "0 \<le> ?ch * (1 + ?u)" using ch unit_roundoff_range by simp
  have "?ch * (1 + ?u) * sum_values d \<le> ?ch * (1 + ?u) * (1 + 1 / 2 ^ 40)"
    using S f0 by (rule mult_left_mono)
  with scale_double_sum_upper [OF c0 nn] eps
  have A: "?A + real ?n * eta \<le> ?ch * (1 + ?u) * (1 + 1 / 2 ^ 40) + 2 / 2 ^ 90" by linarith
  have nonneg: "\<forall>v \<in> set (map snd (scale_double c d)). 0 \<le> v"
    by (rule snd_nonneg [OF scale_double_nonneg [OF c0 nn]])
  have "0 \<le> ?A" unfolding sum_values_def
    by (rule sum_list_nonneg) (use nonneg in auto)
  then have A0: "0 \<le> ?A + real ?n * eta" using eta_pos by simp
  have q: "?q \<le> 1 + 1 / 2 ^ 42" by (rule power_one_plus_upper [OF len])
  have q0: "0 \<le> ?q" using unit_roundoff_range by simp
  have "(?A + real ?n * eta) * ?q
        \<le> (?ch * (1 + ?u) * (1 + 1 / 2 ^ 40) + 2 / 2 ^ 90) * (1 + 1 / 2 ^ 42)"
    using A q by (rule mult_mono) (use A A0 q0 in simp_all)
  moreover have "sum_values_double (scale_double c d) \<le> (?A + real ?n * eta) * ?q"
    using float_sum_upper [OF nonneg]
    by (simp add: sum_values_double_def sum_values_def length_scale_double)
  moreover have "(?ch * (1 + ?u) * (1 + 1 / 2 ^ 40) + 2 / 2 ^ 90) * (1 + 1 / 2 ^ 42)
      \<le> ?ch * (1 + 1 / 2 ^ 39)"
    using ch by (simp add: unit_roundoff_def algebra_simps)
  ultimately show ?thesis by linarith
qed

lemma quotient_upper:
  assumes v: "0 \<le> v" and c: "1 / 2 \<le> c"
      and T: "c * (1 - 1 / 2 ^ 39) \<le> T"
      and a0: "0 \<le> a" and a: "a \<le> v * c * (1 + unit_roundoff) + eta"
  shows "round_double (a / T) \<le> v * (1 + 1 / 2 ^ 38) + 4 * eta"
proof -
  let ?u = unit_roundoff
  let ?D = "1 - 1 / 2 ^ 39 :: real"
  define K where "K = (1 + ?u) / ?D"
  define L where "L = 2 / ?D"
  have D: "0 < ?D" by simp
  from c D have cD: "0 < c * ?D" by simp
  with T have T0: "0 < T" by linarith
  have X0: "0 \<le> v * c * (1 + ?u) + eta"
    using v c eta_pos unit_roundoff_range by simp
  have "a / T \<le> (v * c * (1 + ?u) + eta) / (c * ?D)"
    using X0 a cD T by (rule frac_le)
  also have "\<dots> = v * ((1 + ?u) / ?D) + eta / (c * ?D)"
    using c by (simp add: field_simps)
  also have "eta / (c * ?D) \<le> eta / ((1 / 2) * ?D)"
    using c eta_pos by (intro divide_left_mono mult_right_mono mult_pos_pos) simp_all
  finally have "a / T \<le> v * ((1 + ?u) / ?D) + eta * (2 / ?D)" by simp
  then have q: "a / T \<le> v * K + eta * L" by (simp only: K_def L_def)
  have "0 \<le> a / T" using a0 T0 by simp
  then have r: "round_double (a / T) \<le> (a / T) * (1 + ?u) + eta"
    by (rule round_double_upper)
  have m: "(a / T) * (1 + ?u) \<le> (v * K + eta * L) * (1 + ?u)"
    using q by (rule mult_right_mono) (use unit_roundoff_range in simp)
  have e: "(v * K + eta * L) * (1 + ?u) + eta = v * (K * (1 + ?u)) + eta * (L * (1 + ?u) + 1)"
    by (simp add: algebra_simps)
  have "K * (1 + ?u) \<le> 1 + 1 / 2 ^ 38" by (simp add: K_def unit_roundoff_def)
  then have k: "v * (K * (1 + ?u)) \<le> v * (1 + 1 / 2 ^ 38)"
    using v by (rule mult_left_mono)
  have "L * (1 + ?u) + 1 \<le> 4" by (simp add: L_def unit_roundoff_def)
  then have l: "eta * (L * (1 + ?u) + 1) \<le> eta * 4"
    using eta_pos by (intro mult_left_mono) simp_all
  define P where "P = v * (K * (1 + ?u))"
  define R where "R = eta * (L * (1 + ?u) + 1)"
  define Q where "Q = (v * K + eta * L) * (1 + ?u)"
  define W where "W = v * (1 + 1 / 2 ^ 38)"
  from r m e k l
  have "round_double (a / T) \<le> (a / T) * (1 + ?u) + eta" "(a / T) * (1 + ?u) \<le> Q"
    "Q + eta = P + R" "P \<le> W" "R \<le> eta * 4"
    by (simp_all only: P_def R_def Q_def W_def)
  then have "round_double (a / T) \<le> W + 4 * eta" by linarith
  then show ?thesis by (simp only: W_def)
qed

lemma quotient_lower:
  assumes v: "0 \<le> v" and c: "1 \<le> c"
      and T: "T \<le> c * (1 + 1 / 2 ^ 39)" and T1: "1 / 2 \<le> T"
      and a0: "0 \<le> a" and a: "v * c * (1 - unit_roundoff) - eta \<le> a"
  shows "v * (1 - 1 / 2 ^ 38) - 4 * eta \<le> round_double (a / T)"
proof -
  let ?u = unit_roundoff
  let ?E = "1 + 1 / 2 ^ 39 :: real"
  from T1 have T0: "0 < T" by simp
  have E: "0 < ?E" by simp
  have num: "0 \<le> v * c * (1 - ?u)" using v c unit_roundoff_range by simp
  have "v * ((1 - ?u) / ?E) = (v * c * (1 - ?u)) / (c * ?E)"
    using c by (simp add: field_simps)
  also have "\<dots> \<le> (v * c * (1 - ?u)) / T"
    using num T T0 by (intro divide_left_mono) simp_all
  finally have first: "v * ((1 - ?u) / ?E) \<le> (v * c * (1 - ?u)) / T" .
  have "eta / T \<le> eta / (1 / 2)"
    using T1 eta_pos by (intro divide_left_mono) simp_all
  then have second: "eta / T \<le> 2 * eta" by simp
  have "(v * c * (1 - ?u) - eta) / T \<le> a / T"
    using a T0 by (simp add: divide_right_mono)
  then have "(v * c * (1 - ?u)) / T - eta / T \<le> a / T"
    by (simp add: diff_divide_distrib)
  with first second have q: "v * ((1 - ?u) / ?E) - 2 * eta \<le> a / T" by linarith
  define K where "K = (1 - ?u) / ?E"
  from q have qK: "v * K - 2 * eta \<le> a / T" by (simp only: K_def)
  have "(v * K - 2 * eta) * (1 - ?u) \<le> (a / T) * (1 - ?u)"
    using qK unit_roundoff_range by (intro mult_right_mono) simp_all
  moreover have "0 \<le> a / T" using a0 T0 by simp
  then have "(a / T) * (1 - ?u) - eta \<le> round_double (a / T)"
    by (rule round_double_lower)
  moreover have "v * (1 - 1 / 2 ^ 38) - 4 * eta \<le> (v * K - 2 * eta) * (1 - ?u) - eta"
  proof -
    have "1 - 1 / 2 ^ 38 \<le> K * (1 - ?u)" by (simp add: K_def unit_roundoff_def)
    then have k: "v * (1 - 1 / 2 ^ 38) \<le> v * (K * (1 - ?u))"
      using v by (rule mult_left_mono)
    have l: "2 * eta * (1 - ?u) \<le> 2 * eta"
      using eta_pos unit_roundoff_range by simp
    have e: "(v * K - 2 * eta) * (1 - ?u) - eta
             = v * (K * (1 - ?u)) - 2 * eta * (1 - ?u) - eta"
      by (simp add: algebra_simps)
    define P where "P = v * (K * (1 - ?u))"
    define R where "R = 2 * eta * (1 - ?u)"
    define Q where "Q = (v * K - 2 * eta) * (1 - ?u)"
    define W where "W = v * (1 - 1 / 2 ^ 38)"
    from k l e have "W \<le> P" "R \<le> 2 * eta" "Q - eta = P - R - eta"
      by (simp_all only: P_def R_def Q_def W_def)
    then have "W - 4 * eta \<le> Q - eta" using eta_pos by linarith
    then show ?thesis by (simp only: W_def Q_def)
  qed
  ultimately show ?thesis by linarith
qed

lemma reserved_factor: "1 / 2 \<le> round_double 0.8" "round_double 0.8 \<le> 1"
  unfolding double_literals by simp_all

lemma expressive_factor: "1 \<le> round_double 1.2" "round_double 1.2 \<le> 2"
  unfolding double_literals by simp_all

lemma apply_double_scaled:
  assumes "adjust_scores_double (expression_style ctx c) d = scale_double f d"
      and "0 < sum_values_double (scale_double f d)"
  shows "apply_cultural_context_double ctx d c
         = map (\<lambda>(k, v). (k, round_double (v / sum_values_double (scale_double f d))))
             (scale_double f d)"
  using assms
  by (simp add: apply_cultural_context_double_def apply_cultural_context_double_body_def
      Let_def divide_all_double_nonzero)

lemma anger_joy_literals:
  "anger_joy_scores = AList.update ''anger'' (round_double 0.9)
     (AList.update ''joy'' (round_double 0.1) emotion_scores_init)"
  unfolding double_literals by (simp only: anger_joy_scores_def)

lemma anger_joy_sum: "sum_values_double anger_joy_scores = 1"
  by (simp add: anger_joy_scores_def sum_values_double_def float_sum_def
      emotion_scores_init_def taxonomy_def round_double_eval)

lemma example_styles:
  "expression_style load_cultural_context ''eastern'' = Str ''reserved''"
  "expression_style load_cultural_context ''western'' = Str ''expressive''"
  by (simp_all add: expression_style_def load_cultural_context_def dict_get_def)

text \<open>
  Claim C8, as stated, fails in the arithmetic of the program. The input
  \<^verbatim>\<open>{anger: 0.9, joy: 0.1}\<close> has the float sum 1.0. Under the \<^verbatim>\<open>reserved\<close> style of
  \<^verbatim>\<open>eastern\<close> the returned score of \<^verbatim>\<open>joy\<close> is 0.10000000000000002, above its
  input 0.1; under the \<^verbatim>\<open>expressive\<close> style of \<^verbatim>\<open>western\<close> the returned score of
  \<^verbatim>\<open>anger\<close> is 0.8999999999999999, below its input 0.9.
\<close>

theorem cultural_adjuster_rounds_past_input:
  "sum_values_double anger_joy_scores = 1
   \<and> map_of anger_joy_scores ''joy'' = Some (3602879701896397 / 2 ^ 55)
   \<and> map_of (apply_cultural_context_double load_cultural_context anger_joy_scores ''eastern'')
         ''joy'' = Some (7205759403792795 / 2 ^ 56)
   \<and> (3602879701896397 / 2 ^ 55 :: real) < 7205759403792795 / 2 ^ 56
   \<and> map_of anger_joy_scores ''anger'' = Some (8106479329266893 / 2 ^ 53)
   \<and> map_of (apply_cultural_context_double load_cultural_context anger_joy_scores ''western'')
         ''anger'' = Some (2026619832316723 / 2 ^ 51)
   \<and> (2026619832316723 / 2 ^ 51 :: real) < 8106479329266893 / 2 ^ 53"
proof -
  have "map_of (apply_cultural_context_double load_cultural_context anger_joy_scores ''eastern'')
          ''joy'' = Some (7205759403792795 / 2 ^ 56)"
    by (simp add: apply_cultural_context_double_def apply_cultural_context_double_body_def
        adjust_scores_double_def example_styles neutral_emotions_def
        anger_joy_scores_def sum_values_double_def float_sum_def
        emotion_scores_init_def taxonomy_def round_double_eval)
  moreover
  have "map_of (apply_cultural_context_double load_cultural_context anger_joy_scores ''western'')
          ''anger'' = Some (2026619832316723 / 2 ^ 51)"
    by (simp add: apply_cultural_context_double_def apply_cultural_context_double_body_def
        adjust_scores_double_def example_styles neutral_emotions_def
        anger_joy_scores_def sum_values_double_def float_sum_def
        emotion_scores_init_def taxonomy_def round_double_eval)
  moreover
  have "map_of anger_joy_scores ''joy'' = Some (3602879701896397 / 2 ^ 55)"
    "map_of anger_joy_scores ''anger'' = Some (8106479329266893 / 2 ^ 53)"
    by (simp_all add: anger_joy_scores_def emotion_scores_init_def taxonomy_def)
  moreover
  have "(3602879701896397 / 2 ^ 55 :: real) < 7205759403792795 / 2 ^ 56"
    "(2026619832316723 / 2 ^ 51 :: real) < 8106479329266893 / 2 ^ 53"
    by simp_all
  ultimately show ?thesis using anger_joy_sum by blast
qed

text \<open>
  Claim C8, amended. In double arithmetic, for non-negative scores over at most 1024
  labels whose exact sum is within \<open>1 / 2 ^ 40\<close> of 1, and a label outside the neutral
  class with input score \<open>v\<close>: under the \<^verbatim>\<open>reserved\<close> style the returned score is at
  most \<open>v * (1 + 1 / 2 ^ 38) + 2 powi (- 1073)\<close>, under the \<^verbatim>\<open>expressive\<close> style it is
  at least \<open>v * (1 - 1 / 2 ^ 38) - 2 powi (- 1073)\<close>, so the returned score passes the
  input score by rounding error only; and the loops of the adjuster leave the score of
  every neutral-class label as it was, before the division by the new sum.
\<close>

theorem cultural_adjuster_direction_double:
  assumes nn: "list_all (\<lambda>(k, v). 0 \<le> v) emotion_scores"
      and sum: "\<bar>sum_values emotion_scores - 1\<bar> \<le> 1 / 2 ^ 40"
      and len: "length emotion_scores \<le> 1024"
      and emotion: "emotion \<notin> set neutral_emotions"
      and v: "map_of emotion_scores emotion = Some v"
  shows "(expression_style cultural_context context = Str ''reserved'' \<longrightarrow>
            (\<exists>v'. map_of (apply_cultural_context_double cultural_context emotion_scores context)
                     emotion = Some v'
                  \<and> v' \<le> v * (1 + 1 / 2 ^ 38) + 2 powi (- 1073)))
       \<and> (expression_style cultural_context context = Str ''expressive'' \<longrightarrow>
            (\<exists>v'. map_of (apply_cultural_context_double cultural_context emotion_scores context)
                     emotion = Some v'
                  \<and> v * (1 - 1 / 2 ^ 38) - 2 powi (- 1073) \<le> v'))
       \<and> (\<forall>n \<in> set neutral_emotions.
            map_of (adjust_scores_double (expression_style cultural_context context)
                      emotion_scores) n
            = map_of emotion_scores n)"
proof -
  let ?style = "expression_style cultural_context context"
  let ?u = unit_roundoff
  from sum have S: "1 - 1 / 2 ^ 40 \<le> sum_values emotion_scores"
    "sum_values emotion_scores \<le> 1 + 1 / 2 ^ 40" by linarith+
  from nn v have v0: "0 \<le> v"
    by (auto simp: list_all_iff dest!: map_of_SomeD)
  have reserved: "\<exists>v'. map_of (apply_cultural_context_double cultural_context emotion_scores context)
                     emotion = Some v' \<and> v' \<le> v * (1 + 1 / 2 ^ 38) + 2 powi (- 1073)"
    if st: "?style = Str ''reserved''"
  proof -
    let ?c = "round_double 0.8"
    let ?T = "sum_values_double (scale_double ?c emotion_scores)"
    let ?a = "round_double (v * ?c)"
    have adj: "adjust_scores_double ?style emotion_scores = scale_double ?c emotion_scores"
      unfolding adjust_scores_double_scale st by simp
    have "min ?c 1 * (1 - 1 / 2 ^ 39) \<le> ?T"
      by (rule total_lower [OF reserved_factor(1) nn len S(1)])
    then have T: "?c * (1 - 1 / 2 ^ 39) \<le> ?T"
      using reserved_factor(2) by (simp only: min_absorb1)
    have "0 < ?c * (1 - 1 / 2 ^ 39)" using reserved_factor(1) by simp
    with T have T0: "0 < ?T" by linarith
    have vc: "0 \<le> v * ?c" using v0 reserved_factor(1) by simp
    have a0: "0 \<le> ?a" by (rule round_double_nonneg [OF vc])
    have a: "?a \<le> v * ?c * (1 + ?u) + eta" by (rule round_double_upper [OF vc])
    have "map_of (apply_cultural_context_double cultural_context emotion_scores context) emotion
          = Some (round_double (?a / ?T))"
      using emotion v
      by (simp add: apply_double_scaled [OF adj T0] map_of_rounded_quotient map_of_scale_double)
    moreover have "round_double (?a / ?T) \<le> v * (1 + 1 / 2 ^ 38) + 2 powi (- 1073)"
      using quotient_upper [OF v0 reserved_factor(1) T a0 a] by (simp only: four_eta)
    ultimately show ?thesis by blast
  qed
  have expressive: "\<exists>v'. map_of (apply_cultural_context_double cultural_context emotion_scores context)
                     emotion = Some v' \<and> v * (1 - 1 / 2 ^ 38) - 2 powi (- 1073) \<le> v'"
    if st: "?style = Str ''expressive''"
  proof -
    let ?c = "round_double 1.2"
    let ?T = "sum_values_double (scale_double ?c emotion_scores)"
    let ?a = "round_double (v * ?c)"
    have c_half: "1 / 2 \<le> ?c" using expressive_factor(1) by simp
    have adj: "adjust_scores_double ?style emotion_scores = scale_double ?c emotion_scores"
      using st by (simp add: adjust_scores_double_scale)
    have "min ?c 1 * (1 - 1 / 2 ^ 39) \<le> ?T"
      by (rule total_lower [OF c_half nn len S(1)])
    then have Tl: "1 - 1 / 2 ^ 39 \<le> ?T"
      using expressive_factor(1) by (simp add: min_absorb2)
    then have T1: "1 / 2 \<le> ?T" and T0: "0 < ?T" by simp_all
    have "?T \<le> max ?c 1 * (1 + 1 / 2 ^ 39)"
      by (rule total_upper [OF c_half nn len S(2)])
    then have Tu: "?T \<le> ?c * (1 + 1 / 2 ^ 39)"
      using expressive_factor(1) by (simp add: max_absorb1)
    have vc: "0 \<le> v * ?c" using v0 c_half by simp
    have a0: "0 \<le> ?a" by (rule round_double_nonneg [OF vc])
    have a: "v * ?c * (1 - ?u) - eta \<le> ?a" by (rule round_double_lower [OF vc])
    have "map_of (apply_cultural_context_double cultural_context emotion_scores context) emotion
          = Some (round_double (?a / ?T))"
      using emotion v
      by (simp add: apply_double_scaled [OF adj T0] map_of_rounded_quotient map_of_scale_double)
    moreover have "v * (1 - 1 / 2 ^ 38) - 2 powi (- 1073) \<le> round_double (?a / ?T)"
      using quotient_lower [OF v0 expressive_factor(1) Tu T1 a0 a] by (simp only: four_eta)
    ultimately show ?thesis by blast
  qed
  have neutral: "\<forall>n \<in> set neutral_emotions.
            map_of (adjust_scores_double ?style emotion_scores) n = map_of emotion_scores n"
    by (simp add: adjust_scores_double_scale map_of_scale_double)
  from reserved expressive neutral show ?thesis by blast
qed

theorem cultural_adjuster_direction_double_witness:
  "(\<exists>v'. map_of (apply_cultural_context_double load_cultural_context anger_joy_scores
                   ''eastern'') ''joy'' = Some v'
         \<and> v' \<le> 3602879701896397 / 2 ^ 55 * (1 + 1 / 2 ^ 38) + 2 powi (- 1073))
   \<and> (\<exists>v'. map_of (apply_cultural_context_double load_cultural_context anger_joy_scores
                   ''western'') ''anger'' = Some v'
         \<and> 8106479329266893 / 2 ^ 53 * (1 - 1 / 2 ^ 38) - 2 powi (- 1073) \<le> v')
   \<and> map_of (adjust_scores_double (Str ''reserved'') anger_joy_scores) ''neutral''
       = map_of anger_joy_scores ''neutral''"
proof -
  have nn: "list_all (\<lambda>(k, v). 0 \<le> v) anger_joy_scores"
    by (simp add: anger_joy_scores_def emotion_scores_init_def taxonomy_def)
  have sum: "\<bar>sum_values anger_joy_scores - 1\<bar> \<le> 1 / 2 ^ 40"
    by (simp add: anger_joy_scores_def emotion_scores_init_def taxonomy_def sum_values_def)
  have len: "length anger_joy_scores \<le> 1024"
    by (simp add: anger_joy_scores_def emotion_scores_init_def taxonomy_def)
  have out: "''joy'' \<notin> set neutral_emotions" "''anger'' \<notin> set neutral_emotions"
    and inn: "''neutral'' \<in> set neutral_emotions"
    by (simp_all add: neutral_emotions_def)
  have joy: "map_of anger_joy_scores ''joy'' = Some (3602879701896397 / 2 ^ 55)"
    and anger: "map_of anger_joy_scores ''anger'' = Some (8106479329266893 / 2 ^ 53)"
    by (simp_all add: anger_joy_scores_def emotion_scores_init_def taxonomy_def)
  note east = cultural_adjuster_direction_double
                [OF nn sum len out(1) joy, of load_cultural_context "''eastern''"]
  note west = cultural_adjuster_direction_double
                [OF nn sum len out(2) anger, of load_cultural_context "''western''"]
  from east have "map_of (adjust_scores_double (expression_style load_cultural_context ''eastern'')
                            anger_joy_scores) ''neutral''
                  = map_of anger_joy_scores ''neutral''"
    using inn by blast
  then have "map_of (adjust_scores_double (Str ''reserved'') anger_joy_scores) ''neutral''
             = map_of anger_joy_scores ''neutral''"
    by (simp only: example_styles)
  with east west example_styles show ?thesis by blast
qed

subsection \<open>Score Normalizer: unrecognised labels and stored state\<close>

lemma has_key_update: "has_key (AList.update k v s) k' = (has_key s k' \<or> k' = k)"
  by (auto simp: has_key_def update_keys)

lemma has_key_absorb_item:
  "has_key s ''neutral'' \<Longrightarrow> has_key (absorb_item it s) k = has_key s k"
  by (auto simp: absorb_item_def has_key_update)

lemma absorb_item_sentinel:
  "has_key s ''neutral'' \<Longrightarrow> \<not> has_key s (label it) \<Longrightarrow>
   absorb_item it s = absorb_item sentinel_item s"
  by (simp add: absorb_item_def sentinel_item_def)

lemma absorb_items_sentinel:
  "has_key s ''neutral'' \<Longrightarrow> (\<And>k. has_key s k = K k) \<Longrightarrow>
   absorb_items results s
   = absorb_items (map (\<lambda>it. if K (label it) then it else sentinel_item) results) s"
proof (induction results arbitrary: s)
  case Nil
  then show ?case by (simp add: absorb_items_def)
next
  case (Cons it results)
  let ?it' = "if K (label it) then it else sentinel_item"
  have step: "absorb_item it s = absorb_item ?it' s"
    using Cons.prems absorb_item_sentinel [of s it] by auto
  have n: "has_key (absorb_item it s) ''neutral''"
    using Cons.prems(1) by (simp add: has_key_absorb_item)
  have k: "\<And>k. has_key (absorb_item it s) k = K k"
    using Cons.prems by (simp add: has_key_absorb_item)
  from Cons.IH [OF n k] step show ?case
    by (simp add: absorb_items_def)
qed

lemma absorb_items_all_recognised:
  "\<forall>it \<in> set results. has_key s (label it) \<Longrightarrow>
   absorb_items results s = fold (\<lambda>it. AList.update (label it) (score it)) results s"
proof (induction results arbitrary: s)
  case Nil
  then show ?case by (simp add: absorb_items_def)
next
  case (Cons it results)
  from Cons.prems have here: "absorb_item it s = AList.update (label it) (score it) s"
    by (simp add: absorb_item_def)
  from Cons.prems have "\<forall>x \<in> set results. has_key (AList.update (label it) (score it) s) (label x)"
    by (simp add: has_key_update)
  from Cons.IH [OF this] here show ?case by (simp add: absorb_items_def)
qed

text \<open>
  Claim C6, as stated, fails. With \<^verbatim>\<open>[{joy: 0.5}, {sarcasm: 0.3}]\<close> from the all-zero
  state the output differs from the output for the input restricted to recognised labels,
  and \<^verbatim>\<open>neutral\<close> holds 0.5 before normalisation although the input has a recognised
  label.
\<close>

theorem unrecognised_label_not_ignored:
  "process_model_output emotion_scores_init mixed_input
   \<noteq> process_model_output emotion_scores_init
        (filter (\<lambda>it. has_key emotion_scores_init (label it)) mixed_input)
   \<and> map_of (absorb_items mixed_input emotion_scores_init) ''neutral'' = Some 0.5"
  by (simp add: mixed_input_def process_model_output_def absorb_items_def absorb_item_def
      has_key_def emotion_scores_init_def taxonomy_def sum_values_def)

text \<open>
  Claim C6, amended. Every entry whose label is not a key of the scores acts exactly as
  the entry \<^verbatim>\<open>{neutral: 0.5}\<close> in its place: the output equals the output for the
  input with each such entry replaced by it. When every label of the input is
  recognised, the loop only overwrites the scores of the labels listed and the 0.5 is
  never written.
\<close>

theorem unrecognised_label_acts_as_sentinel:
  assumes "has_key s ''neutral''"
  shows "process_model_output s results
         = process_model_output s
             (map (\<lambda>it. if has_key s (label it) then it else sentinel_item) results)
       \<and> ((\<forall>it \<in> set results. has_key s (label it)) \<longrightarrow>
            absorb_items results s
            = fold (\<lambda>it. AList.update (label it) (score it)) results s)"
  using absorb_items_sentinel [OF assms, of "has_key s" results]
        absorb_items_all_recognised [of results s]
  by (simp add: process_model_output_def)

theorem unrecognised_label_acts_as_sentinel_witness:
  "process_model_output emotion_scores_init mixed_input
   = process_model_output emotion_scores_init [\<lparr>label = ''joy'', score = 0.5\<rparr>, sentinel_item]
   \<and> absorb_items [\<lparr>label = ''joy'', score = 0.5\<rparr>] emotion_scores_init
       = AList.update ''joy'' 0.5 emotion_scores_init"
  using unrecognised_label_acts_as_sentinel [of emotion_scores_init mixed_input]
        unrecognised_label_acts_as_sentinel
          [of emotion_scores_init "[\<lparr>label = ''joy'', score = 0.5\<rparr>]"]
  by (simp add: mixed_input_def has_key_def emotion_scores_init_def taxonomy_def)

text \<open>
  Claim C7 at a failing input. A first call with \<^verbatim>\<open>[{joy: 0.9}]\<close> leaves
  \<^verbatim>\<open>joy\<close> at 1.0 in the stored scores; a second call with
  \<^verbatim>\<open>[{sadness: 0.5}]\<close> then returns \<^verbatim>\<open>joy\<close> at 2/3 and \<^verbatim>\<open>sadness\<close> at 1/3,
  while the same input on the all-zero state returns \<^verbatim>\<open>sadness\<close> at 1.0. An empty
  input after the first call returns the scores of the first call again, not the
  degenerate distribution.
\<close>

theorem stale_scores_leak_between_calls:
  "process_model_output emotion_scores_init [\<lparr>label = ''joy'', score = 0.9\<rparr>] = Inr after_joy
   \<and> process_model_output after_joy [\<lparr>label = ''sadness'', score = 0.5\<rparr>]
       = Inr (AList.update ''joy'' (2/3) (AList.update ''sadness'' (1/3) emotion_scores_init))
   \<and> process_model_output emotion_scores_init [\<lparr>label = ''sadness'', score = 0.5\<rparr>]
       = Inr (AList.update ''sadness'' 1 emotion_scores_init)
   \<and> process_model_output after_joy [] = Inr after_joy
   \<and> after_joy \<noteq> neutral_distribution"
  by (simp add: after_joy_def process_model_output_def absorb_items_def absorb_item_def
      has_key_def emotion_scores_init_def neutral_distribution_def taxonomy_def
      sum_values_def)

subsection \<open>Intensity Classifier\<close>

lemma max_score_of_Max:
  "max_score_of d = (if d = [] then 0 else Max (snd ` set d))"
proof (cases d)
  case Nil
  then show ?thesis by (simp add: max_score_of_def)
next
  case (Cons kv kvs)
  have "fold max (map snd kvs) (snd kv) = Max (set (snd kv # map snd kvs))"
    by (rule Max.set_eq_fold [symmetric])
  with Cons show ?thesis by (simp add: max_score_of_def)
qed

lemma exclam_of_str: "exclam_of (PyStr t) = Inr (count_list t CHR ''!'')"
proof -
  have "length (filter (\<lambda>c. c = x) t) = count_list t x" for x :: char
    by (induction t) auto
  then show ?thesis by (simp add: exclam_of_def truthy_def)
qed

lemma caps_of_str:
  "caps_of (PyStr t)
   = Inr (if t = [] then 0 else real (length (filter isupper t)) / real (length t))"
proof (cases t)
  case Nil
  then show ?thesis by (simp add: caps_of_def truthy_def)
next
  case (Cons c cs)
  then have "max 1 (length t) = length t" by simp
  with Cons show ?thesis by (simp add: caps_of_def truthy_def)
qed

lemma any_match_Bex: "any_match mods s = (\<exists>m \<in> set mods. contains s m)"
  by (simp add: any_match_def list_ex_iff)

lemma spec_intensity_ladder:
  "spec_intensity e =
     Some (if peak e \<ge> 0.75 then
             (if exclam e > 2 \<or> caps_ratio e > 0.3 \<or> high_match e then ''high''
              else if exclam e \<ge> 1 \<or> caps_ratio e \<ge> 0.1 \<or> med_match e then ''medium''
              else if low_match e then ''low'' else ''high'')
           else if peak e \<ge> 0.45 then
             (if exclam e \<ge> 3 \<or> caps_ratio e \<ge> 0.3 \<or> high_match e then ''high''
              else if exclam e \<ge> 1 \<or> caps_ratio e \<ge> 0.1 \<or> med_match e then ''medium''
              else if low_match e then ''low'' else ''medium'')
           else
             (if exclam e \<ge> 3 \<or> caps_ratio e \<ge> 0.3 \<or> high_match e then ''high''
              else if exclam e \<ge> 1 \<or> caps_ratio e \<ge> 0.1 \<or> med_match e then ''medium''
              else if low_match e then ''low'' else ''low''))"
proof (cases "peak e \<ge> 0.75")
  case True
  then show ?thesis
    by (simp add: spec_intensity_def spec_intensity_table_def)
next
  case False
  show ?thesis
  proof (cases "peak e \<ge> 0.45")
    case True
    with False show ?thesis
      by (simp add: spec_intensity_def spec_intensity_table_def)
  next
    case lowpeak: False
    then have "peak e < 0.45" by simp
    with False lowpeak show ?thesis
      by (simp add: spec_intensity_def spec_intensity_table_def)
  qed
qed

lemma calculate_intensity_str:
  "calculate_intensity d (PyStr t) =
     (let e = spec_evidence d t in
      if peak e \<ge> 0.75 then
             (if exclam e > 2 \<or> caps_ratio e > 0.3 \<or> high_match e then ''high''
              else if exclam e \<ge> 1 \<or> caps_ratio e \<ge> 0.1 \<or> med_match e then ''medium''
              else if low_match e then ''low'' else ''high'')
           else if peak e \<ge> 0.45 then
             (if exclam e \<ge> 3 \<or> caps_ratio e \<ge> 0.3 \<or> high_match e then ''high''
              else if exclam e \<ge> 1 \<or> caps_ratio e \<ge> 0.1 \<or> med_match e then ''medium''
              else if low_match e then ''low'' else ''medium'')
           else
             (if exclam e \<ge> 3 \<or> caps_ratio e \<ge> 0.3 \<or> high_match e then ''high''
              else if exclam e \<ge> 1 \<or> caps_ratio e \<ge> 0.1 \<or> med_match e then ''medium''
              else if low_match e then ''low'' else ''low''))"
  unfolding calculate_intensity_def calculate_intensity_body_def spec_evidence_def Let_def
    exclam_of_str caps_of_str any_match_Bex max_score_of_Max
  by simp

text \<open>
  Claim C3. For every distribution and every string text, \<^verbatim>\<open>_calculate_intensity\<close>
  returns the level that the threshold table of section 4.3 gives, read top to bottom
  with the first matching row winning, on the evidence computed from the distribution
  and the text. The proof uses nothing about which characters are uppercase or how a
  character is lowercased.
\<close>

theorem intensity_follows_table:
  "spec_intensity (spec_evidence emotion_scores t)
   = Some (calculate_intensity emotion_scores (PyStr t))"
  by (simp only: spec_intensity_ladder calculate_intensity_str Let_def)

theorem intensity_follows_table_witness:
  "spec_intensity (spec_evidence example_scores ''so happy!!!'') = Some ''high''"
proof -
  have "calculate_intensity example_scores (PyStr ''so happy!!!'') = ''high''"
    by (simp add: calculate_intensity_def calculate_intensity_body_def max_score_of_def
        example_scores_def emotion_scores_init_def taxonomy_def exclam_of_def caps_of_def
        truthy_def)
  with intensity_follows_table [of example_scores "''so happy!!!''"] show ?thesis by simp
qed

text \<open>
  Claim C9, as stated, fails. An empty distribution with the text \<^verbatim>\<open>!!!\<close> is not
  classified \<^verbatim>\<open>low\<close>, and neither is the text \<^verbatim>\<open>None\<close> with a peak score of 0.9.
\<close>

theorem intensity_not_always_low:
  "calculate_intensity [] (PyStr ''!!!'') \<noteq> ''low''
   \<and> calculate_intensity example_scores PyNone \<noteq> ''low''"
  by (simp add: calculate_intensity_def calculate_intensity_body_def max_score_of_def
      example_scores_def emotion_scores_init_def taxonomy_def exclam_of_def caps_of_def
      truthy_def any_match_def intensity_modifiers_high_def intensity_modifiers_medium_def
      intensity_modifiers_low_def)

lemma no_match_on_empty:
  "any_match intensity_modifiers_high [] = False"
  "any_match intensity_modifiers_medium [] = False"
  "any_match intensity_modifiers_low [] = False"
  by (simp_all add: any_match_def intensity_modifiers_high_def intensity_modifiers_medium_def
      intensity_modifiers_low_def)

lemma calculate_intensity_falsy:
  "\<not> truthy text \<Longrightarrow>
   calculate_intensity d text =
     (if max_score_of d \<ge> 0.75 then ''high''
      else if max_score_of d \<ge> 0.45 then ''medium'' else ''low'')"
  by (cases "text")
     (simp_all add: calculate_intensity_def calculate_intensity_body_def exclam_of_def
        caps_of_def truthy_def no_match_on_empty lower_def)

text \<open>
  Claim C9, amended. \<^verbatim>\<open>_calculate_intensity\<close> returns \<^verbatim>\<open>low\<close> whenever its body
  raises, and the body raises for a text that is truthy and not a string (a non-zero
  integer). The text \<^verbatim>\<open>None\<close> raises nothing: it carries no surface signal and gets
  the default of its peak tier. An empty distribution raises nothing either: its peak is
  0, and the rows for a peak below 0.45 decide.
\<close>

theorem intensity_safe_default:
  "(calculate_intensity_body d text = Inl err \<longrightarrow> calculate_intensity d text = ''low'')
   \<and> (n \<noteq> 0 \<longrightarrow> calculate_intensity_body d (PyInt n) = Inl AttributeError)
   \<and> calculate_intensity d PyNone =
       (if max_score_of d \<ge> 0.75 then ''high''
        else if max_score_of d \<ge> 0.45 then ''medium'' else ''low'')
   \<and> calculate_intensity [] (PyStr t) =
       (let e = spec_evidence [] t in
        if exclam e \<ge> 3 \<or> caps_ratio e \<ge> 0.3 \<or> high_match e then ''high''
        else if exclam e \<ge> 1 \<or> caps_ratio e \<ge> 0.1 \<or> med_match e then ''medium''
        else ''low'')"
proof -
  have a: "calculate_intensity_body d text = Inl err \<longrightarrow> calculate_intensity d text = ''low''"
    by (simp add: calculate_intensity_def)
  have b: "n \<noteq> 0 \<longrightarrow> calculate_intensity_body d (PyInt n) = Inl AttributeError"
    by (simp add: calculate_intensity_body_def exclam_of_def truthy_def)
  have c: "calculate_intensity d PyNone =
       (if max_score_of d \<ge> 0.75 then ''high''
        else if max_score_of d \<ge> 0.45 then ''medium'' else ''low'')"
    by (rule calculate_intensity_falsy) (simp add: truthy_def)
  have "peak (spec_evidence [] t) = 0" by (simp add: spec_evidence_def)
  then have e: "calculate_intensity [] (PyStr t) =
       (let e = spec_evidence [] t in
        if exclam e \<ge> 3 \<or> caps_ratio e \<ge> 0.3 \<or> high_match e then ''high''
        else if exclam e \<ge> 1 \<or> caps_ratio e \<ge> 0.1 \<or> med_match e then ''medium''
        else ''low'')"
    by (simp add: calculate_intensity_str Let_def)
  from a b c e show ?thesis by blast
qed

theorem intensity_safe_default_witness:
  "calculate_intensity example_scores (PyInt 5) = ''low''
   \<and> calculate_intensity_body example_scores (PyInt 5) = Inl AttributeError
   \<and> calculate_intensity [] (PyStr ''fine'') = ''low''
   \<and> calculate_intensity example_scores PyNone = ''high''"
proof -
  have peak: "max_score_of example_scores = 0.9"
    by (simp add: max_score_of_def example_scores_def emotion_scores_init_def taxonomy_def)
  have ev: "exclam (spec_evidence [] ''fine'') = 0" "caps_ratio (spec_evidence [] ''fine'') = 0"
    "\<not> high_match (spec_evidence [] ''fine'')" "\<not> med_match (spec_evidence [] ''fine'')"
    by (simp_all add: spec_evidence_def isupper_def lower_def lower_char_def
        intensity_modifiers_high_def intensity_modifiers_medium_def)
  from intensity_safe_default [of example_scores "PyInt 5" AttributeError 5 "''fine''"]
       intensity_safe_default [of example_scores PyNone AttributeError 0 "''fine''"] ev peak
  show ?thesis by (simp add: Let_def)
qed

subsection \<open>Trend Analyzer\<close>

lemma remdups_single_iff:
  "(length (remdups es) = 1) = (es \<noteq> [] \<and> (\<forall>e \<in> set es. e = hd es))"
proof -
  have "(card (set es) = 1) = (es \<noteq> [] \<and> (\<forall>e \<in> set es. e = hd es))"
  proof
    assume "card (set es) = 1"
    then obtain x where x: "set es = {x}" by (auto simp: card_1_singleton_iff)
    then have "es \<noteq> []" by auto
    moreover from this x have "hd es = x" using hd_in_set [of es] by auto
    ultimately show "es \<noteq> [] \<and> (\<forall>e \<in> set es. e = hd es)" using x by auto
  next
    assume a: "es \<noteq> [] \<and> (\<forall>e \<in> set es. e = hd es)"
    then have "set es = {hd es}" using hd_in_set [of es] by auto
    then show "card (set es) = 1" by simp
  qed
  then show ?thesis by (simp add: length_remdups_card_conv)
qed

text \<open>
  Claim C5. \<^verbatim>\<open>_calculate_trend\<close> gives \<^verbatim>\<open>insufficient_data\<close> for an empty window
  or an argument that is not a sequence; otherwise \<^verbatim>\<open>stable\<close> when all entries are
  the same; otherwise \<^verbatim>\<open>improving\<close> when the positive entries outnumber the negative
  ones, \<^verbatim>\<open>declining\<close> when the negative ones outnumber the positive ones, and
  \<^verbatim>\<open>mixed\<close> when the two counts are equal.
\<close>

theorem calculate_trend_cases:
  "calculate_trend window =
     (case window of
        PyNotSeq \<Rightarrow> ''insufficient_data''
      | PySeq es \<Rightarrow>
          if es = [] then ''insufficient_data''
          else if (\<forall>e \<in> set es. e = hd es) then ''stable''
          else if length (filter (\<lambda>e. e \<in> set positive_emotions) es)
                  > length (filter (\<lambda>e. e \<in> set negative_emotions) es) then ''improving''
          else if length (filter (\<lambda>e. e \<in> set negative_emotions) es)
                  > length (filter (\<lambda>e. e \<in> set positive_emotions) es) then ''declining''
          else ''mixed'')"
proof (cases window)
  case (PySeq es)
  then show ?thesis
    using remdups_single_iff [of es] by (simp add: calculate_trend_def Let_def)
next
  case PyNotSeq
  then show ?thesis by (simp add: calculate_trend_def)
qed

theorem calculate_trend_cases_witness:
  "calculate_trend (PySeq [''joy'', ''anger'', ''joy'']) = ''improving''
   \<and> calculate_trend (PySeq [''joy'', ''joy'']) = ''stable''
   \<and> calculate_trend (PySeq [''joy'', ''anger'']) = ''mixed''
   \<and> calculate_trend (PySeq [''fear'', ''anger'', ''joy'']) = ''declining''
   \<and> calculate_trend (PySeq []) = ''insufficient_data''
   \<and> calculate_trend PyNotSeq = ''insufficient_data''"
  by (simp add: calculate_trend_cases [of "PySeq [''joy'', ''anger'', ''joy'']"]
      calculate_trend_cases [of "PySeq [''joy'', ''joy'']"]
      calculate_trend_cases [of "PySeq [''joy'', ''anger'']"]
      calculate_trend_cases [of "PySeq [''fear'', ''anger'', ''joy'']"]
      calculate_trend_cases [of "PySeq []"]
      calculate_trend_cases [of "PyNotSeq"]
      positive_emotions_def negative_emotions_def)

lemma deque_append_fold:
  "length q \<le> 10 \<Longrightarrow>
   fold (\<lambda>r q. deque_append 10 (g r) q) rs q = last_n 10 (q @ map g rs)"
proof (induction rs arbitrary: q)
  case Nil
  then show ?case by (simp add: last_n_def)
next
  case (Cons r rs)
  show ?case
  proof (cases "length q = 10")
    case True
    then obtain a q' where q: "q = a # q'" by (cases q) auto
    with True have len: "length q' = 9" by simp
    have step: "deque_append 10 (g r) q = q' @ [g r]"
      using True q by (simp add: deque_append_def)
    have "length (q' @ [g r]) \<le> 10" using len by simp
    from Cons.IH [OF this] step
    have "fold (\<lambda>r q. deque_append 10 (g r) q) (r # rs) q = last_n 10 ((q' @ [g r]) @ map g rs)"
      by simp
    also have "\<dots> = last_n 10 (q @ map g (r # rs))"
      using len q by (simp add: last_n_def)
    finally show ?thesis .
  next
    case False
    with Cons.prems have lt: "length q < 10" by simp
    then have step: "deque_append 10 (g r) q = q @ [g r]"
      by (simp add: deque_append_def)
    have "length (q @ [g r]) \<le> 10" using lt by simp
    from Cons.IH [OF this] step show ?thesis by simp
  qed
qed

lemma recent_emotions_last_10:
  "recent_emotions_of rs = last_n 10 (map get_primary_emotion rs)"
  using deque_append_fold [of "[]" get_primary_emotion rs]
  by (simp add: recent_emotions_of_def)

lemma update_not_Nil: "AList.update k v al \<noteq> []"
  by (cases al) auto

lemma fold_count_not_Nil: "rs \<noteq> [] \<or> c \<noteq> [] \<Longrightarrow> fold count_emotion rs c \<noteq> []"
  by (induction rs arbitrary: c) (auto simp: count_emotion_def Let_def update_not_Nil)

lemma max_key_returns: "rs \<noteq> [] \<Longrightarrow> \<exists>k. max_key (emotion_counts_of rs) = Inr k"
  using fold_count_not_Nil [of rs "[]"]
  by (auto simp: max_key_def emotion_counts_of_def split: list.split)

text \<open>
  Claim C4. For a non-empty list of records, the buffer \<^verbatim>\<open>recent_emotions\<close> holds the
  last 10 primary emotions in input order, \<^verbatim>\<open>get_emotion_trends\<close> returns a report,
  and the trend string of the report names the trend of the last 3 entries of the buffer,
  the trend of its last 7 entries (of all entries when there are fewer), and as overall
  trend the short one when the two agree and \<^verbatim>\<open>mixed\<close> when they differ.
\<close>

theorem trend_windows:
  assumes "emotion_results \<noteq> []"
  shows "recent_emotions_of emotion_results = last_n 10 (map get_primary_emotion emotion_results)
       \<and> (\<exists>report. get_emotion_trends emotion_results = Inr report \<and>
            trend report =
              (let buffer = last_n 10 (map get_primary_emotion emotion_results);
                   short = calculate_trend (PySeq (last_n 3 buffer));
                   medium = calculate_trend (PySeq (last_n 7 buffer))
               in trend_text short medium (if short = medium then short else ''mixed'')))"
proof -
  from max_key_returns [OF assms] obtain k where "max_key (emotion_counts_of emotion_results) = Inr k" ..
  with assms show ?thesis
    by (simp add: get_emotion_trends_def Let_def recent_emotions_last_10)
qed

theorem trend_windows_witness:
  "(\<exists>report. get_emotion_trends spec_history = Inr report \<and>
      trend report = ''short-term: stable, mid-term: improving and overall: mixed'')
   \<and> recent_emotions_of long_history
       = [''joy'', ''joy'', ''anger'', ''joy'', ''fear'', ''joy'', ''joy'', ''joy'',
          ''anger'', ''anger'']
   \<and> (\<exists>report. get_emotion_trends long_history = Inr report \<and>
      trend report = ''short-term: declining, mid-term: improving and overall: mixed'')"
  using trend_windows [of spec_history] trend_windows [of long_history]
  by (simp add: spec_history_def long_history_def last_n_def get_primary_emotion_def
      calculate_trend_def positive_emotions_def negative_emotions_def trend_text_def)

text \<open>
  Claim C10. On an empty list \<^verbatim>\<open>get_emotion_trends\<close> returns the fixed report with
  dominant emotion \<^verbatim>\<open>neutral\<close>, trend \<^verbatim>\<open>stable\<close> and analysis
  \<^verbatim>\<open>No data available\<close>, and no other key.
\<close>

theorem empty_history_report:
  "get_emotion_trends [] =
     Inr \<lparr>dominant_emotion = ''neutral'', emotion_distribution = None,
          average_intensity = None, trend = ''stable'', total_messages = None,
          analysis = ''No data available''\<rparr>"
  by (simp add: get_emotion_trends_def)

end
